theory Spec2Isabelle
  imports Complex_Main "HOL-Library.Multiset"
begin

section \<open>Data model\<close>

text \<open>
  A shallow embedding of the map component \<^verbatim>\<open>PriceMap.tsx\<close> and of the price
  statistics of \<^verbatim>\<open>App.tsx\<close>.

  A JavaScript \<^verbatim>\<open>number\<close> is modelled by a rational: every finite double is a
  rational, and all arithmetic below is exact. \<^verbatim>\<open>NaN\<close>, the infinities and the rounding
  of double arithmetic are outside the model.
\<close>

type_synonym number = rat

text \<open>
  The optional price fields are declared \<^verbatim>\<open>regular_price?: number | null\<close>: absent
  (\<^verbatim>\<open>undefined\<close>), \<^verbatim>\<open>null\<close> or a number. \<^verbatim>\<open>typeof v === "number"\<close> holds for
  the last case only.
\<close>

datatype opt_number = Undefined | Null | Number number

fun is_number :: "opt_number \<Rightarrow> bool" where
  "is_number (Number v) = True"
| "is_number Undefined = False"
| "is_number Null = False"

text \<open>
  \<^verbatim>\<open>interface StorePoint\<close>. A field of type \<^verbatim>\<open>T | null\<close> is an option with
  \<open>None\<close> for \<^verbatim>\<open>null\<close>.
\<close>

record StorePoint =
  location_id :: string
  name :: string
  chain :: "string option"
  city :: "string option"
  state :: "string option"
  latitude :: "number option"
  longitude :: "number option"
  regular_price :: opt_number
  promo_price :: opt_number
  price_date :: "string option"

text \<open>\<^verbatim>\<open>interface Cluster\<close>.\<close>

record Cluster =
  lat :: number
  lng :: number
  stores :: "StorePoint list"

text \<open>
  The value of \<^verbatim>\<open>priceRange\<close>: \<^verbatim>\<open>{ min: number | null, max: number | null }\<close>
  (the fields are renamed, \<open>min\<close> and \<open>max\<close> being constants of HOL).
\<close>

record PriceRange =
  range_min :: "number option"
  range_max :: "number option"

section \<open>Numbers as text\<close>

definition digit_char :: "nat \<Rightarrow> char" where
  "digit_char d = ''0123456789abcdef'' ! d"

text \<open>The decimal and the hexadecimal digits of a natural number, most significant first.\<close>

fun dec_digits :: "nat \<Rightarrow> string" where
  "dec_digits n =
     (if n < 10 then [digit_char n] else dec_digits (n div 10) @ [digit_char (n mod 10)])"

fun hex_digits :: "nat \<Rightarrow> string" where
  "hex_digits n =
     (if n < 16 then [digit_char n] else hex_digits (n div 16) @ [digit_char (n mod 16)])"

declare dec_digits.simps [simp del] hex_digits.simps [simp del]

text \<open>
  \<^verbatim>\<open>Number::toString\<close> of a number \<open>x \<ge> 10\<^sup>2\<^sup>1\<close>, which is exponent notation: with
  \<open>n\<close> the number of digits of the integer part, the digits are those of the decimal
  \<open>s * 10 ^ (n - k)\<close> that is \<open>x\<close>, with \<open>k\<close> as small as possible. An engine never prints
  more than 17 digits, and so \<open>s\<close> is the 17-digit integer nearest to \<open>x / 10 ^ (n - 17)\<close>
  (the even one on a tie), less its trailing zeros. The text is \<^verbatim>\<open>d.ddde+nn\<close>, and
  \<^verbatim>\<open>de+nn\<close> for a single digit. (Among the decimals that read back as the same double,
  an engine picks the shortest; that choice belongs to the spacing of the doubles and
  is not modelled.)
\<close>

definition round_half_even :: "number \<Rightarrow> int" where
  "round_half_even y =
     (let q = \<lfloor>y\<rfloor>; f = y - of_int q
      in if f < 1 / 2 then q else if 1 / 2 < f then q + 1 else if even q then q else q + 1)"

fun strip_zeros :: "nat \<Rightarrow> nat" where
  "strip_zeros s = (if s = 0 \<or> s mod 10 \<noteq> 0 then s else strip_zeros (s div 10))"

declare strip_zeros.simps [simp del]

definition toString_exponent :: "number \<Rightarrow> string" where
  "toString_exponent x =
     (let n0 = length (dec_digits (nat \<lfloor>x\<rfloor>));
          s0 = nat (round_half_even (x / 10 ^ (n0 - 17)));
          n = (if s0 = 10 ^ 17 then n0 + 1 else n0);
          ds = dec_digits (strip_zeros s0)
      in (if length ds = 1 then ds else take 1 ds @ ''.'' @ drop 1 ds) @
         ''e+'' @ dec_digits (n - 1))"

text \<open>
  \<^verbatim>\<open>x.toFixed(2)\<close> (ECMAScript, Number.prototype.toFixed): a negative \<open>x\<close> gives the
  sign and is negated. Then a number from \<open>10\<^sup>2\<^sup>1\<close> on is printed by
  \<^verbatim>\<open>Number::toString\<close>. Below that, \<open>n\<close> is the integer nearest to \<open>100 * x\<close>, the larger
  one on a tie; its decimal digits are padded on the left to three at least, and the
  point stands before the last two.
\<close>

definition toFixed2 :: "number \<Rightarrow> string" where
  "toFixed2 x =
     (let s = (if x < 0 then ''-'' else '''');
          y = (if x < 0 then - x else x)
      in if 10 ^ 21 \<le> y then s @ toString_exponent y
         else
           (let n = nat (round (y * 100));
                m = dec_digits n;
                m = (if length m \<le> 2 then replicate (3 - length m) (CHR ''0'') @ m else m);
                k = length m
            in s @ take (k - 2) m @ ''.'' @ drop (k - 2) m))"

text \<open>
  \<^verbatim>\<open>r.toString(16)\<close> for a number that \<^verbatim>\<open>Math.round\<close> returned: an integer, or
  \<^verbatim>\<open>NaN\<close> (here \<open>None\<close>).
\<close>

definition toString16 :: "int option \<Rightarrow> string" where
  "toString16 r =
     (case r of
        None \<Rightarrow> ''NaN''
      | Some i \<Rightarrow> (if i < 0 then ''-'' @ hex_digits (nat (- i)) else hex_digits (nat i)))"

text \<open>\<^verbatim>\<open>s.padStart(2, "0")\<close>.\<close>

definition padStart2 :: "string \<Rightarrow> string" where
  "padStart2 s = replicate (2 - length s) (CHR ''0'') @ s"

text \<open>
  \<^verbatim>\<open>parseInt(s, 16)\<close>: leading white space is skipped, then a sign, then a prefix
  \<^verbatim>\<open>0x\<close> or \<^verbatim>\<open>0X\<close>; the longest run of hexadecimal digits that follows is the
  value, and \<^verbatim>\<open>NaN\<close> (here \<open>None\<close>) when that run is empty.
\<close>

definition hex_val :: "char \<Rightarrow> nat option" where
  "hex_val c =
     (let n = of_char c :: nat in
      if 48 \<le> n \<and> n \<le> 57 then Some (n - 48)
      else if 97 \<le> n \<and> n \<le> 102 then Some (n - 87)
      else if 65 \<le> n \<and> n \<le> 70 then Some (n - 55)
      else None)"

definition is_space :: "char \<Rightarrow> bool" where
  "is_space c = (of_char c \<in> {9, 10, 11, 12, 13, 32 :: nat})"

definition parseInt16 :: "string \<Rightarrow> int option" where
  "parseInt16 s =
     (let s1 = dropWhile is_space s;
          neg = (case s1 of c # _ \<Rightarrow> c = CHR ''-'' | [] \<Rightarrow> False);
          s2 = (case s1 of c # r \<Rightarrow> (if c = CHR ''-'' \<or> c = CHR ''+'' then r else s1) | [] \<Rightarrow> s1);
          s3 = (if take 2 s2 = ''0x'' \<or> take 2 s2 = ''0X'' then drop 2 s2 else s2);
          ds = takeWhile (\<lambda>c. hex_val c \<noteq> None) s3;
          v = foldl (\<lambda>a c. 16 * a + int (case hex_val c of Some d \<Rightarrow> d | None \<Rightarrow> 0)) 0 ds
      in if ds = [] then None else Some (if neg then - v else v))"

section \<open>ColorMapper\<close>

text \<open>\<^verbatim>\<open>s.slice(a, b)\<close> for \<open>0 \<le> a \<le> b\<close>.\<close>

definition slice :: "string \<Rightarrow> nat \<Rightarrow> nat \<Rightarrow> string" where
  "slice s a b = take (b - a) (drop a s)"

text \<open>\<^verbatim>\<open>const clampT = Math.max(0, Math.min(1, t))\<close>.\<close>

definition clampT :: "number \<Rightarrow> number" where
  "clampT t = max 0 (min 1 t)"

text \<open>
  One channel of \<^verbatim>\<open>lerpColor\<close>:
  \<^verbatim>\<open>Math.round(sr + (er - sr) * clampT)\<close>, which is \<^verbatim>\<open>NaN\<close> when an endpoint
  is. \<^verbatim>\<open>Math.round\<close> rounds a tie upwards, as \<^const>\<open>round\<close> does.
\<close>

definition lerpChannel :: "int option \<Rightarrow> int option \<Rightarrow> number \<Rightarrow> int option" where
  "lerpChannel sc ec t =
     (case (sc, ec) of
        (Some s, Some e) \<Rightarrow> Some (round (of_int s + (of_int e - of_int s) * clampT t))
      | _ \<Rightarrow> None)"

definition lerpColor :: "string \<Rightarrow> string \<Rightarrow> number \<Rightarrow> string" where
  "lerpColor startHex endHex t =
     (let sh = remove1 (CHR ''#'') startHex;
          eh = remove1 (CHR ''#'') endHex;
          sr = parseInt16 (slice sh 0 2);
          sg = parseInt16 (slice sh 2 4);
          sb = parseInt16 (slice sh 4 6);
          er = parseInt16 (slice eh 0 2);
          eg = parseInt16 (slice eh 2 4);
          eb = parseInt16 (slice eh 4 6);
          r = lerpChannel sr er t;
          g = lerpChannel sg eg t;
          b = lerpChannel sb eb t;
          hr = padStart2 (toString16 r);
          hg = padStart2 (toString16 g);
          hb = padStart2 (toString16 b)
      in ''#'' @ hr @ hg @ hb)"

text \<open>
  The value an entity is coloured and counted by. The source computes it in three
  places, each modelled by a definition of its own:
  \<^verbatim>\<open>val\<close> in \<^verbatim>\<open>priceRange\<close>, \<^verbatim>\<open>basePrice\<close> in \<^verbatim>\<open>getPriceColor\<close> and
  \<^verbatim>\<open>base\<close> in \<^verbatim>\<open>priceStats\<close>.
\<close>

definition priceRange_val :: "StorePoint \<Rightarrow> number option" where
  "priceRange_val s =
     (case promo_price s of
        Number p \<Rightarrow> Some p
      | _ \<Rightarrow> (case regular_price s of Number r \<Rightarrow> Some r | _ \<Rightarrow> None))"

definition getPriceColor_basePrice :: "StorePoint \<Rightarrow> number option" where
  "getPriceColor_basePrice store =
     (case promo_price store of
        Number p \<Rightarrow> Some p
      | _ \<Rightarrow> (case regular_price store of Number r \<Rightarrow> Some r | _ \<Rightarrow> None))"

definition priceStats_base :: "StorePoint \<Rightarrow> number option" where
  "priceStats_base s =
     (case promo_price s of
        Number p \<Rightarrow> Some p
      | _ \<Rightarrow> (case regular_price s of Number r \<Rightarrow> Some r | _ \<Rightarrow> None))"

text \<open>
  The rule as the specification words it: the promo value if present and numeric, else
  the regular value if present and numeric, else absent.
\<close>

definition present_and_numeric :: "opt_number \<Rightarrow> bool" where
  "present_and_numeric v = (v \<noteq> Undefined \<and> v \<noteq> Null)"

definition numeric_value :: "opt_number \<Rightarrow> number" where
  "numeric_value v = (case v of Number x \<Rightarrow> x | _ \<Rightarrow> 0)"

definition EffectiveValue :: "StorePoint \<Rightarrow> number option" where
  "EffectiveValue e =
     (if present_and_numeric (promo_price e) then Some (numeric_value (promo_price e))
      else if present_and_numeric (regular_price e) then Some (numeric_value (regular_price e))
      else None)"

text \<open>
  \<^verbatim>\<open>const points = stores.filter((s) => s.latitude !== null && s.longitude !== null)\<close>.
\<close>

definition points_of :: "StorePoint list \<Rightarrow> StorePoint list" where
  "points_of store_list =
     filter (\<lambda>s. latitude s \<noteq> None \<and> longitude s \<noteq> None) store_list"

text \<open>
  \<^verbatim>\<open>Math.min(...prices)\<close> and \<^verbatim>\<open>Math.max(...prices)\<close> on a list that is not empty,
  the first element given apart.
\<close>

fun Math_min :: "number \<Rightarrow> number list \<Rightarrow> number" where
  "Math_min m [] = m"
| "Math_min m (x # xs) = Math_min (min m x) xs"

fun Math_max :: "number \<Rightarrow> number list \<Rightarrow> number" where
  "Math_max m [] = m"
| "Math_max m (x # xs) = Math_max (max m x) xs"

text \<open>The loop of \<^verbatim>\<open>priceRange\<close> that collects \<^verbatim>\<open>prices\<close>.\<close>

fun collect_prices :: "StorePoint list \<Rightarrow> number list" where
  "collect_prices [] = []"
| "collect_prices (s # ss) =
     (case priceRange_val s of
        Some v \<Rightarrow> v # collect_prices ss
      | None \<Rightarrow> collect_prices ss)"

definition priceRange :: "StorePoint list \<Rightarrow> PriceRange" where
  "priceRange points =
     (case collect_prices points of
        [] \<Rightarrow> \<lparr>range_min = None, range_max = None\<rparr>
      | p # ps \<Rightarrow> \<lparr>range_min = Some (Math_min p ps), range_max = Some (Math_max p ps)\<rparr>)"

text \<open>
  \<^verbatim>\<open>getPriceColor\<close>, with the \<^verbatim>\<open>priceRange\<close> it closes over as a parameter.
  \<open>getPriceColor_t\<close> is the \<^verbatim>\<open>t\<close> it hands to \<^verbatim>\<open>lerpColor\<close>, \<open>None\<close> on the
  fallback branch.
\<close>

definition getPriceColor :: "PriceRange \<Rightarrow> StorePoint \<Rightarrow> string" where
  "getPriceColor pr store =
     (case (getPriceColor_basePrice store, range_min pr, range_max pr) of
        (Some basePrice, Some mn, Some mx) \<Rightarrow>
          (if mx = mn then ''#007bff''
           else lerpColor ''#2ecc71'' ''#e74c3c'' ((basePrice - mn) / (mx - mn)))
      | _ \<Rightarrow> ''#007bff'')"

definition getPriceColor_t :: "PriceRange \<Rightarrow> StorePoint \<Rightarrow> number option" where
  "getPriceColor_t pr store =
     (case (getPriceColor_basePrice store, range_min pr, range_max pr) of
        (Some basePrice, Some mn, Some mx) \<Rightarrow>
          (if mx = mn then None else Some ((basePrice - mn) / (mx - mn)))
      | _ \<Rightarrow> None)"

section \<open>ClusterEngine\<close>

text \<open>
  A JavaScript \<^verbatim>\<open>Map\<close> keeps its keys in insertion order: an association list, where
  \<^verbatim>\<open>set\<close> replaces the entry of a key that is present in place and appends a new key.
\<close>

fun map_set :: "('k \<times> 'v) list \<Rightarrow> 'k \<Rightarrow> 'v \<Rightarrow> ('k \<times> 'v) list" where
  "map_set [] k v = [(k, v)]"
| "map_set ((k', v') # m) k v = (if k' = k then (k, v) # m else (k', v') # map_set m k v)"

definition map_get :: "('k \<times> 'v) list \<Rightarrow> 'k \<Rightarrow> 'v option" where
  "map_get m k = map_of m k"

definition map_values :: "('k \<times> 'v) list \<Rightarrow> 'v list" where
  "map_values m = map snd m"

text \<open>
  \<^verbatim>\<open>s.latitude as number\<close>: the cast does nothing at run time, and \<^verbatim>\<open>null\<close> in
  arithmetic is \<open>0\<close>. The loop below only sees \<open>points\<close>, where no coordinate is null.
\<close>

definition as_number :: "number option \<Rightarrow> number" where
  "as_number v = (case v of Some x \<Rightarrow> x | None \<Rightarrow> 0)"

definition gridSize_of :: "number \<Rightarrow> number" where
  "gridSize_of zoom = (if zoom \<le> 4 then 6 else if zoom \<le> 7 then 7 / 2 else 3 / 2)"

definition cluster_key :: "number \<Rightarrow> StorePoint \<Rightarrow> string" where
  "cluster_key gridSize s =
     (let lat = as_number (latitude s);
          lng = as_number (longitude s);
          keyLat = of_int (round (lat / gridSize)) * gridSize;
          keyLng = of_int (round (lng / gridSize)) * gridSize
      in toFixed2 keyLat @ ''_'' @ toFixed2 keyLng)"

text \<open>The body of the loop \<^verbatim>\<open>for (const s of points)\<close>.\<close>

definition cluster_step :: "number \<Rightarrow> (string \<times> Cluster) list \<Rightarrow> StorePoint \<Rightarrow> (string \<times> Cluster) list" where
  "cluster_step gridSize clusterMap s =
     (let la = as_number (latitude s);
          ln = as_number (longitude s);
          key = cluster_key gridSize s
      in case map_get clusterMap key of
           None \<Rightarrow> map_set clusterMap key \<lparr>lat = la, lng = ln, stores = [s]\<rparr>
         | Some existing \<Rightarrow>
             (let pushed = stores existing @ [s];
                  n = of_nat (length pushed)
              in map_set clusterMap key
                   \<lparr>lat = lat existing + (la - lat existing) / n,
                    lng = lng existing + (ln - lng existing) / n,
                    stores = pushed\<rparr>))"

fun cluster_loop :: "number \<Rightarrow> (string \<times> Cluster) list \<Rightarrow> StorePoint list \<Rightarrow> (string \<times> Cluster) list" where
  "cluster_loop gridSize clusterMap [] = clusterMap"
| "cluster_loop gridSize clusterMap (s # ss) =
     cluster_loop gridSize (cluster_step gridSize clusterMap s) ss"

record Classified =
  clusters :: "Cluster list"
  individualPoints :: "StorePoint list"

text \<open>The \<^verbatim>\<open>useMemo\<close> that yields \<^verbatim>\<open>{ clusters, individualPoints }\<close>.\<close>

definition classify_points :: "StorePoint list \<Rightarrow> number \<Rightarrow> Classified" where
  "classify_points points zoom =
     (if length points = 0 then \<lparr>clusters = [], individualPoints = []\<rparr>
      else if zoom \<ge> 11 then \<lparr>clusters = [], individualPoints = points\<rparr>
      else \<lparr>clusters = map_values (cluster_loop (gridSize_of zoom) [] points),
            individualPoints = []\<rparr>)"

text \<open>The classify step of \<^verbatim>\<open>PriceMap\<close>, from the \<^verbatim>\<open>stores\<close> it is given
  (\<open>store_list\<close> here, \<open>stores\<close> being the field of a cluster).\<close>

definition classify :: "StorePoint list \<Rightarrow> number \<Rightarrow> Classified" where
  "classify store_list zoom = classify_points (points_of store_list) zoom"

section \<open>StatsEngine\<close>

text \<open>
  \<^verbatim>\<open>storesForMap\<close> of \<^verbatim>\<open>App\<close>: with a product selected, the stores that have a
  price. \<^verbatim>\<open>!selectedProductUpc\<close> holds for the empty string.
\<close>

definition storesForMap :: "string \<Rightarrow> StorePoint list \<Rightarrow> StorePoint list" where
  "storesForMap selectedProductUpc storesWithPrice =
     (if selectedProductUpc = [] then storesWithPrice
      else filter (\<lambda>s. is_number (promo_price s) \<or> is_number (regular_price s)) storesWithPrice)"

text \<open>An entry \<^verbatim>\<open>{ price, count }\<close> of \<^verbatim>\<open>distribution\<close>, and the record \<^verbatim>\<open>priceStats\<close>.\<close>

record Bucket =
  bucket_price :: number
  bucket_count :: nat

record PriceStats =
  stats_min :: number
  stats_median :: number
  stats_max :: number
  stats_mean :: number
  stats_count :: nat
  distribution :: "Bucket list"

text \<open>\<^verbatim>\<open>Math.round(base * 100) / 100\<close>.\<close>

definition round2 :: "number \<Rightarrow> number" where
  "round2 base = of_int (round (base * 100)) / 100"

text \<open>
  The loop of \<^verbatim>\<open>priceStats\<close> over \<^verbatim>\<open>storesForMap\<close>, on the pair of \<^verbatim>\<open>values\<close>
  (here \<open>vals\<close>) and \<^verbatim>\<open>countsMap\<close>.
\<close>

fun stats_loop ::
  "number list \<times> (number \<times> nat) list \<Rightarrow> StorePoint list \<Rightarrow> number list \<times> (number \<times> nat) list" where
  "stats_loop (vals, countsMap) [] = (vals, countsMap)"
| "stats_loop (vals, countsMap) (s # ss) =
     (case priceStats_base s of
        None \<Rightarrow> stats_loop (vals, countsMap) ss
      | Some base \<Rightarrow>
          (let price = round2 base
           in stats_loop
                (vals @ [price],
                 map_set countsMap price
                   ((case map_get countsMap price of Some c \<Rightarrow> c | None \<Rightarrow> 0) + 1))
                ss))"

text \<open>
  \<^verbatim>\<open>priceStats\<close>; \<open>None\<close> is \<^verbatim>\<open>null\<close>. \<^verbatim>\<open>values.sort((a, b) => a - b)\<close> sorts
  ascending, and so does the sort of the buckets by price.
\<close>

definition priceStats :: "string \<Rightarrow> StorePoint list \<Rightarrow> PriceStats option" where
  "priceStats selectedProductUpc stores_for_map =
     (if selectedProductUpc = [] then None
      else
        (let (vals, countsMap) = stats_loop ([], []) stores_for_map
         in if length vals = 0 then None
            else
              (let sorted_vals = sort vals;
                   mn = sorted_vals ! 0;
                   mx = sorted_vals ! (length sorted_vals - 1);
                   mid = length sorted_vals div 2;
                   med = (if length sorted_vals mod 2 = 1 then sorted_vals ! mid
                          else (sorted_vals ! (mid - 1) + sorted_vals ! mid) / 2);
                   total = foldl (\<lambda>acc v. acc + v) 0 sorted_vals;
                   avg = total / of_nat (length sorted_vals);
                   dist = sort_key bucket_price
                            (map (\<lambda>(p, c). \<lparr>bucket_price = p, bucket_count = c\<rparr>) countsMap)
               in Some \<lparr>stats_min = mn, stats_median = med, stats_max = mx, stats_mean = avg,
                         stats_count = length sorted_vals, distribution = dist\<rparr>)))"

text \<open>
  A marker of the gradient bar: \<^verbatim>\<open>null\<close> (no marker) when \<^verbatim>\<open>max === min\<close>, else
  \<^verbatim>\<open>Math.max(0, Math.min(1, t))\<close> (\<open>marker_t\<close>), which times 100 is \<^verbatim>\<open>position\<close>.
\<close>

definition marker_t :: "PriceStats \<Rightarrow> Bucket \<Rightarrow> number option" where
  "marker_t ps bucket =
     (if stats_max ps = stats_min ps then None
      else
        (let t = (bucket_price bucket - stats_min ps) / (stats_max ps - stats_min ps)
         in Some (max 0 (min 1 t))))"

definition marker_position :: "PriceStats \<Rightarrow> Bucket \<Rightarrow> number option" where
  "marker_position ps bucket = map_option (\<lambda>c. c * 100) (marker_t ps bucket)"

section \<open>Auxiliary definitions for the statements\<close>

text \<open>
  The three channels of a colour, read the way \<^verbatim>\<open>lerpColor\<close> reads its two
  arguments.
\<close>

definition hex_channels :: "string \<Rightarrow> int option \<times> int option \<times> int option" where
  "hex_channels hex =
     (let h = remove1 (CHR ''#'') hex
      in (parseInt16 (slice h 0 2), parseInt16 (slice h 2 4), parseInt16 (slice h 4 6)))"





text \<open>A store with the given identifier, coordinates and prices, and no display fields.\<close>

definition store_at ::
  "string \<Rightarrow> number option \<Rightarrow> number option \<Rightarrow> opt_number \<Rightarrow> opt_number \<Rightarrow> StorePoint" where
  "store_at i la lo rp pp =
     \<lparr>location_id = i, name = i, chain = None, city = None, state = None,
      latitude = la, longitude = lo, regular_price = rp, promo_price = pp, price_date = None\<rparr>"

text \<open>The arithmetic mean of a coordinate over a list of stores.\<close>

definition coord_mean :: "(StorePoint \<Rightarrow> number option) \<Rightarrow> StorePoint list \<Rightarrow> number" where
  "coord_mean f ss = sum_list (map (\<lambda>s. as_number (f s)) ss) / of_nat (length ss)"

text \<open>
  The invariant of the clustering loop after the points \<open>seen\<close>: the keys of the map are
  distinct, every cluster holds exactly the points seen with its key, in order, and its
  centre is their mean, and every point seen has its key in the map.
\<close>

definition cluster_inv :: "number \<Rightarrow> StorePoint list \<Rightarrow> (string \<times> Cluster) list \<Rightarrow> bool" where
  "cluster_inv g seen m =
     (distinct (map fst m) \<and>
      (\<forall>(k, c) \<in> set m.
         stores c = filter (\<lambda>s. cluster_key g s = k) seen \<and> stores c \<noteq> [] \<and>
         lat c = coord_mean latitude (stores c) \<and> lng c = coord_mean longitude (stores c)) \<and>
      (\<forall>s \<in> set seen. cluster_key g s \<in> fst ` set m))"

text \<open>
  The two entities of the grid example, at \<open>(40.70, -74.00)\<close> and \<open>(40.71, -74.01)\<close>, and
  an entity without latitude.
\<close>

definition store_nyc_1 :: StorePoint where
  "store_nyc_1 = store_at ''a'' (Some (407 / 10)) (Some (- 74)) Null Null"

definition store_nyc_2 :: StorePoint where
  "store_nyc_2 = store_at ''b'' (Some (4071 / 100)) (Some (- (7401 / 100))) Null Null"

definition store_no_geometry :: StorePoint where
  "store_no_geometry = store_at ''c'' None (Some 3) Null Null"


text \<open>
  The values the statistics aggregate: the effective values of the entities that have
  one, in order, each rounded to two decimals.
\<close>

definition stats_values :: "StorePoint list \<Rightarrow> number list" where
  "stats_values ss = map round2 (List.map_filter EffectiveValue ss)"

text \<open>
  The invariant of \<^verbatim>\<open>countsMap\<close>: its keys are distinct, they are the values collected
  so far, and each is mapped to the number of its occurrences.
\<close>

definition counts_inv :: "number list \<Rightarrow> (number \<times> nat) list \<Rightarrow> bool" where
  "counts_inv vals cm =
     (distinct (map fst cm) \<and>
      (\<forall>p. map_of cm p = (if p \<in> set vals then Some (count_list vals p) else None)))"

text \<open>
  The input of the statistics example, with the effective values 1.00, 1.00, 2.00 and
  3.00, and an input where rounding matters (1.004 becomes 1.00).
\<close>

definition stats_example :: "StorePoint list" where
  "stats_example =
     [store_at ''p1'' None None Null (Number 1),
      store_at ''p2'' None None (Number 1) Undefined,
      store_at ''p3'' None None (Number 5) (Number 2),
      store_at ''p4'' None None (Number 3) Null]"


text \<open>
  Two inputs for the markers of the gradient bar: three priced stores of which the third
  has no latitude, and the same with a latitude for the third.
\<close>

definition marker_example :: "StorePoint list" where
  "marker_example =
     [store_at ''m1'' (Some 40) (Some (- 80)) Null (Number 1),
      store_at ''m2'' (Some 41) (Some (- 81)) Null (Number 2),
      store_at ''m3'' None (Some (- 82)) Null (Number 3)]"

definition marker_example_valid :: "StorePoint list" where
  "marker_example_valid =
     [store_at ''m1'' (Some 40) (Some (- 80)) Null (Number 1),
      store_at ''m2'' (Some 41) (Some (- 81)) Null (Number 2),
      store_at ''m4'' (Some 42) (Some (- 82)) Null (Number 3)]"

section \<open>The effective value\<close>

lemma priceRange_val_EffectiveValue: "priceRange_val s = EffectiveValue s"
  by (simp add: priceRange_val_def EffectiveValue_def present_and_numeric_def
      numeric_value_def split: opt_number.splits)

lemma basePrice_EffectiveValue: "getPriceColor_basePrice s = EffectiveValue s"
  by (simp add: getPriceColor_basePrice_def EffectiveValue_def present_and_numeric_def
      numeric_value_def split: opt_number.splits)

lemma priceStats_base_EffectiveValue: "priceStats_base s = EffectiveValue s"
  by (simp add: priceStats_base_def EffectiveValue_def present_and_numeric_def
      numeric_value_def split: opt_number.splits)

text \<open>
  C5. The effective value of an entity is its promo value if that is a number, else its
  regular value if that is a number, else absent; the value extractions of the colour
  range, of the colour function and of the statistics all compute it, so they agree on
  every entity.
\<close>

theorem value_extraction_agrees:
  "priceRange_val s = EffectiveValue s \<and>
   getPriceColor_basePrice s = EffectiveValue s \<and>
   priceStats_base s = EffectiveValue s \<and>
   EffectiveValue s =
     (case promo_price s of
        Number p \<Rightarrow> Some p
      | _ \<Rightarrow> (case regular_price s of Number r \<Rightarrow> Some r | _ \<Rightarrow> None))"
  by (simp add: priceRange_val_def getPriceColor_basePrice_def priceStats_base_def
      EffectiveValue_def present_and_numeric_def numeric_value_def split: opt_number.splits)

theorem value_extraction_agrees_witness:
  "priceRange_val (store_at ''s1'' None None (Number 5) (Number 4)) = Some 4 \<and>
   getPriceColor_basePrice (store_at ''s1'' None None (Number 5) (Number 4)) = Some 4 \<and>
   priceStats_base (store_at ''s1'' None None (Number 5) (Number 4)) = Some 4 \<and>
   EffectiveValue (store_at ''s1'' None None (Number 5) (Number 4)) = Some 4"
  using value_extraction_agrees [of "store_at ''s1'' None None (Number 5) (Number 4)"]
  by (simp add: store_at_def)

section \<open>The colour function\<close>

lemma parse_low:
  "parseInt16 (slice (remove1 (CHR ''#'') ''#2ecc71'') 0 2) = Some 46"
  "parseInt16 (slice (remove1 (CHR ''#'') ''#2ecc71'') 2 4) = Some 204"
  "parseInt16 (slice (remove1 (CHR ''#'') ''#2ecc71'') 4 6) = Some 113"
  by code_simp+

lemma parse_high:
  "parseInt16 (slice (remove1 (CHR ''#'') ''#e74c3c'') 0 2) = Some 231"
  "parseInt16 (slice (remove1 (CHR ''#'') ''#e74c3c'') 2 4) = Some 76"
  "parseInt16 (slice (remove1 (CHR ''#'') ''#e74c3c'') 4 6) = Some 60"
  by code_simp+

lemma lerpColor_green_red:
  "lerpColor ''#2ecc71'' ''#e74c3c'' t =
     ''#'' @ padStart2 (toString16 (Some (round (46 + (231 - 46) * clampT t))))
           @ padStart2 (toString16 (Some (round (204 + (76 - 204) * clampT t))))
           @ padStart2 (toString16 (Some (round (113 + (60 - 113) * clampT t))))"
  unfolding lerpColor_def Let_def parse_low parse_high lerpChannel_def by simp

lemma clampT_bounds: "0 \<le> clampT t" "clampT t \<le> 1"
  by (simp_all add: clampT_def)

lemma clampT_mono: "t1 \<le> t2 \<Longrightarrow> clampT t1 \<le> clampT t2"
  by (auto simp: clampT_def min_def max_def)

lemma digit_cases:
  assumes "(d::nat) < 16"
  obtains "d = 0" | "d = 1" | "d = 2" | "d = 3" | "d = 4" | "d = 5" | "d = 6" | "d = 7"
    | "d = 8" | "d = 9" | "d = 10" | "d = 11" | "d = 12" | "d = 13" | "d = 14" | "d = 15"
  using assms by atomize_elim presburger

lemma digit_char_facts:
  assumes "d < 16"
  shows "hex_val (digit_char d) = Some d"
    and "\<not> is_space (digit_char d)"
    and "digit_char d \<noteq> CHR ''-''" and "digit_char d \<noteq> CHR ''+''"
    and "digit_char d \<noteq> CHR ''x''" and "digit_char d \<noteq> CHR ''X''"
  using assms
  by (cases d rule: digit_cases; simp add: digit_char_def hex_val_def is_space_def)+

lemma digit_char_nonzero: "0 < d \<Longrightarrow> d < 16 \<Longrightarrow> digit_char d \<noteq> CHR ''0''"
  by (cases d rule: digit_cases; simp add: digit_char_def)

lemma parse_two_digits:
  assumes "a < 16" "b < 16"
  shows "parseInt16 [digit_char a, digit_char b] = Some (int (16 * a + b))"
  using digit_char_facts[OF assms(1)] digit_char_facts[OF assms(2)]
  by (simp add: parseInt16_def)

lemma hex_two_digits:
  assumes "0 \<le> r" "r < 256"
  shows "padStart2 (toString16 (Some r)) = [digit_char (nat r div 16), digit_char (nat r mod 16)]"
proof (cases "r < 16")
  case True
  then have small: "nat r < 16" using assms by linarith
  then have "hex_digits (nat r) = [digit_char (nat r)]"
    by (subst hex_digits.simps) simp
  then show ?thesis
    using assms small by (simp add: toString16_def padStart2_def digit_char_def)
next
  case False
  have "nat r div 16 < 16" using assms by auto
  then have "hex_digits (nat r div 16) = [digit_char (nat r div 16)]"
    by (simp add: hex_digits.simps)
  moreover have "\<not> nat r < 16" using False by auto
  ultimately have "hex_digits (nat r) = [digit_char (nat r div 16), digit_char (nat r mod 16)]"
    by (subst hex_digits.simps) simp
  then show ?thesis using assms by (simp add: toString16_def padStart2_def)
qed

lemma parse_channel:
  assumes "0 \<le> r" "r < 256"
  shows "parseInt16 [digit_char (nat r div 16), digit_char (nat r mod 16)] = Some r"
proof -
  have "nat r div 16 < 16" "nat r mod 16 < 16" using assms by auto
  then have "parseInt16 [digit_char (nat r div 16), digit_char (nat r mod 16)] =
      Some (int (16 * (nat r div 16) + nat r mod 16))"
    by (rule parse_two_digits)
  then show ?thesis using assms by simp
qed

lemma red_channel_bounds:
  "46 \<le> round (46 + (231 - 46) * clampT t)" "round (46 + (231 - 46) * clampT t) \<le> 231"
proof -
  have "round (46 :: rat) \<le> round (46 + (231 - 46) * clampT t)"
    by (rule round_mono) (simp add: clampT_bounds)
  then show "46 \<le> round (46 + (231 - 46) * clampT t)" by simp
  have "round (46 + (231 - 46) * clampT t) \<le> round (231 :: rat)"
    using clampT_bounds(2)[of t] by (intro round_mono) simp
  then show "round (46 + (231 - 46) * clampT t) \<le> 231" by simp
qed

lemma green_channel_bounds:
  "76 \<le> round (204 + (76 - 204) * clampT t)" "round (204 + (76 - 204) * clampT t) \<le> 204"
proof -
  have "round (76 :: rat) \<le> round (204 + (76 - 204) * clampT t)"
    using clampT_bounds(2)[of t] by (intro round_mono) simp
  then show "76 \<le> round (204 + (76 - 204) * clampT t)" by simp
  have "round (204 + (76 - 204) * clampT t) \<le> round (204 :: rat)"
    using clampT_bounds(1)[of t] by (intro round_mono) simp
  then show "round (204 + (76 - 204) * clampT t) \<le> 204" by simp
qed

lemma blue_channel_bounds:
  "60 \<le> round (113 + (60 - 113) * clampT t)" "round (113 + (60 - 113) * clampT t) \<le> 113"
proof -
  have "round (60 :: rat) \<le> round (113 + (60 - 113) * clampT t)"
    using clampT_bounds(2)[of t] by (intro round_mono) simp
  then show "60 \<le> round (113 + (60 - 113) * clampT t)" by simp
  have "round (113 + (60 - 113) * clampT t) \<le> round (113 :: rat)"
    using clampT_bounds(1)[of t] by (intro round_mono) simp
  then show "round (113 + (60 - 113) * clampT t) \<le> 113" by simp
qed

lemma lerpColor_not_fallback: "lerpColor ''#2ecc71'' ''#e74c3c'' t \<noteq> ''#007bff''"
proof
  assume eq: "lerpColor ''#2ecc71'' ''#e74c3c'' t = ''#007bff''"
  let ?r = "round (46 + (231 - 46) * clampT t)"
  have two: "padStart2 (toString16 (Some ?r)) = [digit_char (nat ?r div 16), digit_char (nat ?r mod 16)]"
    using red_channel_bounds[of t] by (intro hex_two_digits) auto
  have "digit_char (nat ?r div 16) = CHR ''0''"
    using eq unfolding lerpColor_green_red two by simp
  moreover have "0 < nat ?r div 16" "nat ?r div 16 < 16"
    using red_channel_bounds[of t] by auto
  ultimately show False using digit_char_nonzero by blast
qed

lemma hex_channels_encoded:
  assumes "0 \<le> r" "r < 256" "0 \<le> g" "g < 256" "0 \<le> b" "b < 256"
  shows "hex_channels (''#'' @ padStart2 (toString16 (Some r)) @ padStart2 (toString16 (Some g))
           @ padStart2 (toString16 (Some b))) = (Some r, Some g, Some b)"
  unfolding hex_two_digits[OF assms(1,2)] hex_two_digits[OF assms(3,4)]
    hex_two_digits[OF assms(5,6)]
  by (simp add: hex_channels_def slice_def parse_channel[OF assms(1,2)]
      parse_channel[OF assms(3,4)] parse_channel[OF assms(5,6)])

lemma hex_channels_lerpColor:
  "hex_channels (lerpColor ''#2ecc71'' ''#e74c3c'' t) =
     (Some (round (46 + (231 - 46) * clampT t)),
      Some (round (204 + (76 - 204) * clampT t)),
      Some (round (113 + (60 - 113) * clampT t)))"
proof -
  let ?r = "round (46 + (231 - 46) * clampT t)"
  let ?g = "round (204 + (76 - 204) * clampT t)"
  let ?b = "round (113 + (60 - 113) * clampT t)"
  have r: "0 \<le> ?r" "?r < 256" using red_channel_bounds[of t] by auto
  have g: "0 \<le> ?g" "?g < 256" using green_channel_bounds[of t] by auto
  have b: "0 \<le> ?b" "?b < 256" using blue_channel_bounds[of t] by auto
  show ?thesis
    unfolding lerpColor_green_red by (rule hex_channels_encoded[OF r g b])
qed

lemma getPriceColor_cases:
  "getPriceColor pr s =
     (case (getPriceColor_t pr s) of
        None \<Rightarrow> ''#007bff''
      | Some t \<Rightarrow> lerpColor ''#2ecc71'' ''#e74c3c'' t)"
  by (simp add: getPriceColor_def getPriceColor_t_def split: option.splits)

text \<open>
  C6. The colour function returns the fixed fallback colour \<^verbatim>\<open>#007bff\<close> exactly when
  the entity has no effective value, or the minimum or the maximum of the range is
  absent, or the two are equal; in every other case it returns the colour interpolated
  at \<open>(value - min) / (max - min)\<close>, which is never the fallback colour.
\<close>

theorem getPriceColor_fallback_iff:
  "(getPriceColor pr s = ''#007bff'') =
     (EffectiveValue s = None \<or> range_min pr = None \<or> range_max pr = None \<or>
      range_max pr = range_min pr) \<and>
   (\<forall>v mn mx. EffectiveValue s = Some v \<and> range_min pr = Some mn \<and> range_max pr = Some mx \<and>
       mx \<noteq> mn \<longrightarrow>
       getPriceColor pr s = lerpColor ''#2ecc71'' ''#e74c3c'' ((v - mn) / (mx - mn)))"
  by (auto simp: getPriceColor_def basePrice_EffectiveValue lerpColor_not_fallback
      split: option.splits)

theorem getPriceColor_fallback_iff_witness:
  "getPriceColor \<lparr>range_min = Some 1, range_max = Some 3\<rparr>
     (store_at ''s1'' None None Null (Number 2)) = ''#8b8c57'' \<and>
   getPriceColor \<lparr>range_min = Some 1, range_max = Some 3\<rparr>
     (store_at ''s1'' None None Null (Number 2)) \<noteq> ''#007bff''"
proof -
  have ev: "EffectiveValue (store_at ''s1'' None None Null (Number 2)) = Some 2"
    by (simp add: EffectiveValue_def store_at_def present_and_numeric_def numeric_value_def)
  have c: "lerpColor ''#2ecc71'' ''#e74c3c'' ((2 - 1) / (3 - 1)) = ''#8b8c57''"
    by code_simp
  show ?thesis
    using getPriceColor_fallback_iff
      [of "\<lparr>range_min = Some 1, range_max = Some 3\<rparr>"
          "store_at ''s1'' None None Null (Number 2)"] ev c
    by simp
qed

text \<open>
  C7. For a range with \<open>min < max\<close>, the parameter \<^verbatim>\<open>clampT\<close> at which a value is
  interpolated lies in \<open>[0, 1]\<close> for every value, also one outside the range; it does not
  decrease when the value grows; and each of the three channels of the colour is
  \<open>round (low + (high - low) * clampT)\<close>, from the channel of the low colour \<^verbatim>\<open>#2ecc71\<close>
  to that of the high colour \<^verbatim>\<open>#e74c3c\<close>.
\<close>

theorem lerp_parameter_clamped_monotone:
  assumes "mn < mx"
    and "range_min pr = Some mn" and "range_max pr = Some mx"
    and "EffectiveValue s1 = Some v1" and "EffectiveValue s2 = Some v2"
  shows "getPriceColor_t pr s1 = Some ((v1 - mn) / (mx - mn)) \<and>
         getPriceColor_t pr s2 = Some ((v2 - mn) / (mx - mn)) \<and>
         0 \<le> clampT ((v1 - mn) / (mx - mn)) \<and> clampT ((v1 - mn) / (mx - mn)) \<le> 1 \<and>
         (v1 < v2 \<longrightarrow> clampT ((v1 - mn) / (mx - mn)) \<le> clampT ((v2 - mn) / (mx - mn))) \<and>
         getPriceColor pr s1 = lerpColor ''#2ecc71'' ''#e74c3c'' ((v1 - mn) / (mx - mn)) \<and>
         hex_channels ''#2ecc71'' = (Some 46, Some 204, Some 113) \<and>
         hex_channels ''#e74c3c'' = (Some 231, Some 76, Some 60) \<and>
         hex_channels (getPriceColor pr s1) =
           (Some (round (46 + (231 - 46) * clampT ((v1 - mn) / (mx - mn)))),
            Some (round (204 + (76 - 204) * clampT ((v1 - mn) / (mx - mn)))),
            Some (round (113 + (60 - 113) * clampT ((v1 - mn) / (mx - mn)))))"
proof -
  have t1: "getPriceColor_t pr s1 = Some ((v1 - mn) / (mx - mn))"
    and t2: "getPriceColor_t pr s2 = Some ((v2 - mn) / (mx - mn))"
    using assms by (simp_all add: getPriceColor_t_def basePrice_EffectiveValue)
  have mono: "clampT ((v1 - mn) / (mx - mn)) \<le> clampT ((v2 - mn) / (mx - mn))" if "v1 < v2"
  proof (rule clampT_mono)
    show "(v1 - mn) / (mx - mn) \<le> (v2 - mn) / (mx - mn)"
      using that assms(1) by (simp add: divide_right_mono)
  qed
  have col: "getPriceColor pr s1 = lerpColor ''#2ecc71'' ''#e74c3c'' ((v1 - mn) / (mx - mn))"
    by (simp add: getPriceColor_cases t1)
  have low: "hex_channels ''#2ecc71'' = (Some 46, Some 204, Some 113)"
    unfolding hex_channels_def Let_def parse_low by simp
  have high: "hex_channels ''#e74c3c'' = (Some 231, Some 76, Some 60)"
    unfolding hex_channels_def Let_def parse_high by simp
  show ?thesis
    using t1 t2 mono clampT_bounds low high
    by (simp add: col hex_channels_lerpColor)
qed

theorem lerp_parameter_clamped_monotone_witness:
  "getPriceColor_t \<lparr>range_min = Some 1, range_max = Some 3\<rparr>
     (store_at ''s1'' None None Null (Number 2)) = Some (1 / 2) \<and>
   getPriceColor_t \<lparr>range_min = Some 1, range_max = Some 3\<rparr>
     (store_at ''s2'' None None (Number 7) Null) = Some 3 \<and>
   clampT (1 / 2) \<le> clampT 3 \<and>
   hex_channels (getPriceColor \<lparr>range_min = Some 1, range_max = Some 3\<rparr>
     (store_at ''s1'' None None Null (Number 2))) = (Some 139, Some 140, Some 87)"
proof -
  have e1: "EffectiveValue (store_at ''s1'' None None Null (Number 2)) = Some 2"
    by (simp add: EffectiveValue_def store_at_def present_and_numeric_def numeric_value_def)
  have e2: "EffectiveValue (store_at ''s2'' None None (Number 7) Null) = Some 7"
    by (simp add: EffectiveValue_def store_at_def present_and_numeric_def numeric_value_def)
  have r: "round (46 + (231 - 46) * clampT ((2 - 1) / (3 - 1))) = 139"
    "round (204 + (76 - 204) * clampT ((2 - 1) / (3 - 1))) = 140"
    "round (113 + (60 - 113) * clampT ((2 - 1) / (3 - 1))) = 87"
    by code_simp+
  have lt: "(2::rat) < 7" by simp
  have p0: "(1::rat) < 3" by simp
  have p1: "range_min \<lparr>range_min = Some 1, range_max = Some 3\<rparr> = Some 1" by simp
  have p2: "range_max \<lparr>range_min = Some 1, range_max = Some 3\<rparr> = Some 3" by simp
  from lerp_parameter_clamped_monotone [OF p0 p1 p2 e1 e2] lt
  have "getPriceColor_t \<lparr>range_min = Some 1, range_max = Some 3\<rparr>
          (store_at ''s1'' None None Null (Number 2)) = Some ((2 - 1) / (3 - 1)) \<and>
        getPriceColor_t \<lparr>range_min = Some 1, range_max = Some 3\<rparr>
          (store_at ''s2'' None None (Number 7) Null) = Some ((7 - 1) / (3 - 1)) \<and>
        clampT ((2 - 1) / (3 - 1)) \<le> clampT ((7 - 1) / (3 - 1)) \<and>
        hex_channels (getPriceColor \<lparr>range_min = Some 1, range_max = Some 3\<rparr>
          (store_at ''s1'' None None Null (Number 2))) =
          (Some (round (46 + (231 - 46) * clampT ((2 - 1) / (3 - 1)))),
           Some (round (204 + (76 - 204) * clampT ((2 - 1) / (3 - 1)))),
           Some (round (113 + (60 - 113) * clampT ((2 - 1) / (3 - 1)))))"
    by blast
  moreover have "(2 - 1) / (3 - 1) = (1 / 2 :: rat)" "(7 - 1) / (3 - 1) = (3 :: rat)"
    by simp_all
  ultimately show ?thesis
    using r by (elim conjE) (simp only: simp_thms)
qed

section \<open>The clustering loop\<close>

lemma map_of_map_set: "map_of (map_set m k v) = (map_of m)(k \<mapsto> v)"
  by (induction m k v rule: map_set.induct) (auto simp: fun_eq_iff)

lemma keys_map_set: "fst ` set (map_set m k v) = insert k (fst ` set m)"
  by (induction m k v rule: map_set.induct) auto

lemma distinct_map_set: "distinct (map fst m) \<Longrightarrow> distinct (map fst (map_set m k v))"
  by (induction m k v rule: map_set.induct) (auto simp: keys_map_set)

lemma set_map_set:
  assumes "distinct (map fst m)"
  shows "(k', c) \<in> set (map_set m k v) \<longleftrightarrow> (if k' = k then c = v else (k', c) \<in> set m)"
proof -
  have "(k', c) \<in> set (map_set m k v) \<longleftrightarrow> map_of (map_set m k v) k' = Some c"
    using distinct_map_set[OF assms] by simp
  also have "\<dots> \<longleftrightarrow> (if k' = k then c = v else map_of m k' = Some c)"
    by (auto simp: map_of_map_set)
  finally show ?thesis using assms by simp
qed

lemma running_mean:
  fixes c x :: rat
  assumes "c = s / of_nat n" "0 < n"
  shows "c + (x - c) / of_nat (Suc n) = (s + x) / of_nat (Suc n)"
  using assms by (simp add: field_simps)

lemma coord_mean_snoc:
  assumes "ss \<noteq> []"
  shows "coord_mean f ss + (as_number (f s) - coord_mean f ss) / of_nat (length (ss @ [s])) =
         coord_mean f (ss @ [s])"
proof -
  have "0 < length ss" using assms by simp
  from running_mean[OF _ this, of "coord_mean f ss" "sum_list (map (\<lambda>s. as_number (f s)) ss)" "as_number (f s)"]
  show ?thesis by (simp add: coord_mean_def)
qed

lemma cluster_inv_step:
  assumes "cluster_inv g seen m"
  shows "cluster_inv g (seen @ [s]) (cluster_step g m s)"
proof (cases "map_of m (cluster_key g s)")
  case None
  let ?k = "cluster_key g s"
  let ?c = "\<lparr>lat = as_number (latitude s), lng = as_number (longitude s), stores = [s]\<rparr>"
  have step: "cluster_step g m s = map_set m ?k ?c"
    using None by (simp add: cluster_step_def map_get_def Let_def)
  have d: "distinct (map fst m)" using assms by (simp add: cluster_inv_def)
  have fresh: "filter (\<lambda>s'. cluster_key g s' = ?k) seen = []"
  proof -
    have "?k \<notin> fst ` set m" using None by (simp add: map_of_eq_None_iff)
    moreover have "\<forall>s' \<in> set seen. cluster_key g s' \<in> fst ` set m"
      using assms by (simp add: cluster_inv_def)
    ultimately have "\<forall>s' \<in> set seen. cluster_key g s' \<noteq> ?k"
      by metis
    then show ?thesis by (simp add: filter_empty_conv)
  qed
  show ?thesis
    unfolding cluster_inv_def step
  proof (intro conjI ballI)
    show "distinct (map fst (map_set m ?k ?c))" by (rule distinct_map_set[OF d])
  next
    fix kc assume kc: "kc \<in> set (map_set m ?k ?c)"
    obtain k c where [simp]: "kc = (k, c)" by (cases kc)
    show "case kc of (k, c) \<Rightarrow>
            stores c = filter (\<lambda>s'. cluster_key g s' = k) (seen @ [s]) \<and> stores c \<noteq> [] \<and>
            lat c = coord_mean latitude (stores c) \<and> lng c = coord_mean longitude (stores c)"
    proof (cases "k = ?k")
      case True
      then have "c = ?c" using kc by (simp add: set_map_set[OF d])
      then show ?thesis using True fresh by (simp add: coord_mean_def)
    next
      case False
      then have "(k, c) \<in> set m" using kc by (simp add: set_map_set[OF d])
      then have "stores c = filter (\<lambda>s'. cluster_key g s' = k) seen \<and> stores c \<noteq> [] \<and>
            lat c = coord_mean latitude (stores c) \<and> lng c = coord_mean longitude (stores c)"
        using assms by (auto simp: cluster_inv_def)
      then show ?thesis using False by auto
    qed
  next
    fix s' assume "s' \<in> set (seen @ [s])"
    then show "cluster_key g s' \<in> fst ` set (map_set m ?k ?c)"
      using assms by (auto simp: keys_map_set cluster_inv_def)
  qed
next
  case (Some existing)
  let ?k = "cluster_key g s"
  let ?c = "\<lparr>lat = lat existing + (as_number (latitude s) - lat existing) / of_nat (length (stores existing @ [s])),
             lng = lng existing + (as_number (longitude s) - lng existing) / of_nat (length (stores existing @ [s])),
             stores = stores existing @ [s]\<rparr>"
  have step: "cluster_step g m s = map_set m ?k ?c"
    using Some by (simp add: cluster_step_def map_get_def Let_def)
  have d: "distinct (map fst m)" using assms by (simp add: cluster_inv_def)
  have "(?k, existing) \<in> set m" using Some by (rule map_of_SomeD)
  then have ex: "stores existing = filter (\<lambda>s'. cluster_key g s' = ?k) seen" "stores existing \<noteq> []"
      "lat existing = coord_mean latitude (stores existing)"
      "lng existing = coord_mean longitude (stores existing)"
    using assms by (auto simp: cluster_inv_def)
  have new: "stores ?c = filter (\<lambda>s'. cluster_key g s' = ?k) (seen @ [s])" "stores ?c \<noteq> []"
      "lat ?c = coord_mean latitude (stores ?c)" "lng ?c = coord_mean longitude (stores ?c)"
    using ex(1) coord_mean_snoc[OF ex(2), of latitude s] coord_mean_snoc[OF ex(2), of longitude s]
      ex(3,4)
    by simp_all
  show ?thesis
    unfolding cluster_inv_def step
  proof (intro conjI ballI)
    show "distinct (map fst (map_set m ?k ?c))" by (rule distinct_map_set[OF d])
  next
    fix kc assume kc: "kc \<in> set (map_set m ?k ?c)"
    obtain k c where [simp]: "kc = (k, c)" by (cases kc)
    show "case kc of (k, c) \<Rightarrow>
            stores c = filter (\<lambda>s'. cluster_key g s' = k) (seen @ [s]) \<and> stores c \<noteq> [] \<and>
            lat c = coord_mean latitude (stores c) \<and> lng c = coord_mean longitude (stores c)"
    proof (cases "k = ?k")
      case True
      then have "c = ?c" using kc by (simp add: set_map_set[OF d])
      then show ?thesis using True new by simp
    next
      case False
      then have "(k, c) \<in> set m" using kc by (simp add: set_map_set[OF d])
      then have "stores c = filter (\<lambda>s'. cluster_key g s' = k) seen \<and> stores c \<noteq> [] \<and>
            lat c = coord_mean latitude (stores c) \<and> lng c = coord_mean longitude (stores c)"
        using assms by (auto simp: cluster_inv_def)
      then show ?thesis using False by auto
    qed
  next
    fix s' assume "s' \<in> set (seen @ [s])"
    then show "cluster_key g s' \<in> fst ` set (map_set m ?k ?c)"
      using assms by (auto simp: keys_map_set cluster_inv_def)
  qed
qed

lemma cluster_inv_loop:
  "cluster_inv g seen m \<Longrightarrow> cluster_inv g (seen @ ss) (cluster_loop g m ss)"
proof (induction ss arbitrary: seen m)
  case Nil
  then show ?case by simp
next
  case (Cons s ss)
  from Cons.IH[OF cluster_inv_step[OF Cons.prems, of s]] show ?case by simp
qed

lemma cluster_inv_final: "cluster_inv g ps (cluster_loop g [] ps)"
  using cluster_inv_loop[of g "[]" "[]" ps] by (simp add: cluster_inv_def)


lemma sum_filter_keys:
  "distinct ks \<Longrightarrow>
   (\<Sum>k\<leftarrow>ks. filter_mset (\<lambda>s. key s = k) M) = filter_mset (\<lambda>s. key s \<in> set ks) M"
proof (induction ks)
  case Nil
  then show ?case by simp
next
  case (Cons k ks)
  have "filter_mset (\<lambda>s. key s = k) M + filter_mset (\<lambda>s. key s \<in> set ks) M =
        filter_mset (\<lambda>s. key s \<in> set (k # ks)) M"
    using Cons.prems by (auto simp: multiset_eq_iff)
  then show ?case using Cons by simp
qed

lemma mset_concat_filter_keys:
  assumes "distinct ks" "\<forall>s \<in> set xs. key s \<in> set ks"
  shows "mset (concat (map (\<lambda>k. filter (\<lambda>s. key s = k) xs) ks)) = mset xs"
proof -
  have "mset (concat (map (\<lambda>k. filter (\<lambda>s. key s = k) xs) ks)) =
        (\<Sum>k\<leftarrow>ks. filter_mset (\<lambda>s. key s = k) (mset xs))"
    by (simp add: mset_concat comp_def)
  also have "\<dots> = filter_mset (\<lambda>s. key s \<in> set ks) (mset xs)"
    by (rule sum_filter_keys[OF assms(1)])
  also have "\<dots> = mset xs"
    using assms(2) by (simp add: filter_mset_eq_conv)
  finally show ?thesis .
qed

lemma cluster_inv_stores:
  assumes "cluster_inv g ps m"
  shows "map stores (map_values m) = map (\<lambda>k. filter (\<lambda>s. cluster_key g s = k) ps) (map fst m)"
  using assms by (auto simp: cluster_inv_def map_values_def)

lemma cluster_partition:
  "mset (concat (map stores (map_values (cluster_loop g [] ps)))) = mset ps"
proof -
  let ?m = "cluster_loop g [] ps"
  have inv: "cluster_inv g ps ?m" by (rule cluster_inv_final)
  then have "distinct (map fst ?m)" "\<forall>s \<in> set ps. cluster_key g s \<in> set (map fst ?m)"
    by (simp_all add: cluster_inv_def)
  then show ?thesis
    unfolding cluster_inv_stores[OF inv] by (rule mset_concat_filter_keys)
qed

lemma cluster_loop_nonempty: "ps \<noteq> [] \<Longrightarrow> map_values (cluster_loop g [] ps) \<noteq> []"
proof -
  assume "ps \<noteq> []"
  then have "mset (concat (map stores (map_values (cluster_loop g [] ps)))) \<noteq> {#}"
    by (simp add: cluster_partition)
  then show ?thesis by auto
qed

lemma classify_points_partition:
  "mset (concat (map stores (clusters (classify_points ps zoom)))) +
     mset (individualPoints (classify_points ps zoom)) = mset ps"
  by (simp add: classify_points_def cluster_partition)

lemma classify_points_exclusive:
  "clusters (classify_points ps zoom) = [] \<or> individualPoints (classify_points ps zoom) = []"
  by (simp add: classify_points_def)

lemma classify_points_both_empty:
  "(clusters (classify_points ps zoom) = [] \<and> individualPoints (classify_points ps zoom) = []) =
   (ps = [])"
  using cluster_loop_nonempty[of ps "gridSize_of zoom"]
  by (auto simp: classify_points_def)

subsection \<open>The grid example, evaluated\<close>

lemma example_coordinates:
  "latitude store_nyc_1 = Some (407 / 10)" "longitude store_nyc_1 = Some (- 74)"
  "latitude store_nyc_2 = Some (4071 / 100)" "longitude store_nyc_2 = Some (- (7401 / 100))"
  "latitude store_no_geometry = None" "longitude store_no_geometry = Some 3"
  by (simp_all add: store_nyc_1_def store_nyc_2_def store_no_geometry_def store_at_def)

lemma example_valid:
  "latitude store_nyc_1 \<noteq> None" "longitude store_nyc_1 \<noteq> None"
  "latitude store_nyc_2 \<noteq> None" "longitude store_nyc_2 \<noteq> None"
  "latitude store_no_geometry = None"
  by (simp_all add: example_coordinates)

lemma example_rounding:
  "round ((407 / 10 :: rat) / 6) = 7" "round ((- 74 :: rat) / 6) = - 12"
  "round ((4071 / 100 :: rat) / 6) = 7" "round ((- (7401 / 100) :: rat) / 6) = - 12"
  by code_simp+

lemma example_toFixed2: "toFixed2 42 = ''42.00''" "toFixed2 (- 72) = ''-72.00''"
  by (simp_all add: toFixed2_def dec_digits.simps digit_char_def Let_def)

lemma example_keys:
  "cluster_key 6 store_nyc_1 = ''42.00_-72.00''" "cluster_key 6 store_nyc_2 = ''42.00_-72.00''"
  unfolding cluster_key_def Let_def example_coordinates as_number_def option.case example_rounding
  by (simp_all add: example_toFixed2)

lemma example_points:
  "points_of [store_nyc_1, store_nyc_2] = [store_nyc_1, store_nyc_2]"
  "points_of [store_nyc_2, store_nyc_1] = [store_nyc_2, store_nyc_1]"
  "points_of [store_nyc_1, store_no_geometry, store_nyc_2] = [store_nyc_1, store_nyc_2]"
  by (simp_all add: points_of_def example_valid)

lemma example_loop:
  "cluster_loop 6 [] [store_nyc_1, store_nyc_2] =
     [(''42.00_-72.00'', \<lparr>lat = 8141 / 200, lng = - (14801 / 200), stores = [store_nyc_1, store_nyc_2]\<rparr>)]"
  "cluster_loop 6 [] [store_nyc_2, store_nyc_1] =
     [(''42.00_-72.00'', \<lparr>lat = 8141 / 200, lng = - (14801 / 200), stores = [store_nyc_2, store_nyc_1]\<rparr>)]"
  by (simp_all add: cluster_step_def example_keys map_get_def example_coordinates as_number_def)

lemma example_classify:
  "classify [store_nyc_1, store_nyc_2] 3 =
     \<lparr>clusters = [\<lparr>lat = 8141 / 200, lng = - (14801 / 200), stores = [store_nyc_1, store_nyc_2]\<rparr>],
      individualPoints = []\<rparr>"
  "classify [store_nyc_2, store_nyc_1] 3 =
     \<lparr>clusters = [\<lparr>lat = 8141 / 200, lng = - (14801 / 200), stores = [store_nyc_2, store_nyc_1]\<rparr>],
      individualPoints = []\<rparr>"
  "classify [store_nyc_1, store_no_geometry, store_nyc_2] 3 =
     \<lparr>clusters = [\<lparr>lat = 8141 / 200, lng = - (14801 / 200), stores = [store_nyc_1, store_nyc_2]\<rparr>],
      individualPoints = []\<rparr>"
  "classify [store_nyc_1, store_no_geometry, store_nyc_2] 11 =
     \<lparr>clusters = [], individualPoints = [store_nyc_1, store_nyc_2]\<rparr>"
  unfolding classify_def example_points
  by (simp_all add: classify_points_def gridSize_of_def example_loop map_values_def
      del: cluster_loop.simps)



lemma filter_valid_example:
  "filter (\<lambda>s. latitude s \<noteq> None \<and> longitude s \<noteq> None)
     [store_nyc_1, store_no_geometry, store_nyc_2] = [store_nyc_1, store_nyc_2]"
  using example_points(3) by (simp only: points_of_def)

text \<open>
  C1. For every list of entities and every zoom, the clusters and the individual points
  partition the entities with a latitude and a longitude: as multisets, the members of
  all clusters together with the individual points are exactly those entities, so each
  of them appears once, in one output, and none is left out; an entity with a null
  coordinate appears in neither output; one of the two outputs is always empty, and
  both are empty exactly when no entity has both coordinates.
\<close>

theorem classify_partitions_valid:
  "mset (concat (map stores (clusters (classify store_list zoom)))) +
     mset (individualPoints (classify store_list zoom)) =
   mset (filter (\<lambda>s. latitude s \<noteq> None \<and> longitude s \<noteq> None) store_list) \<and>
   (\<forall>s. latitude s = None \<or> longitude s = None \<longrightarrow>
      s \<notin> set (concat (map stores (clusters (classify store_list zoom)))) \<and>
      s \<notin> set (individualPoints (classify store_list zoom))) \<and>
   (clusters (classify store_list zoom) = [] \<or> individualPoints (classify store_list zoom) = []) \<and>
   ((clusters (classify store_list zoom) = [] \<and> individualPoints (classify store_list zoom) = []) =
    (filter (\<lambda>s. latitude s \<noteq> None \<and> longitude s \<noteq> None) store_list = []))"
proof -
  define ps where "ps = filter (\<lambda>s. latitude s \<noteq> None \<and> longitude s \<noteq> None) store_list"
  define r where "r = classify store_list zoom"
  have r: "r = classify_points ps zoom"
    by (simp add: r_def ps_def classify_def points_of_def)
  have part: "mset (concat (map stores (clusters r))) + mset (individualPoints r) = mset ps"
    unfolding r by (rule classify_points_partition)
  have "set_mset (mset (concat (map stores (clusters r))) + mset (individualPoints r)) = set ps"
    unfolding part by simp
  then have sub: "set (concat (map stores (clusters r))) \<union> set (individualPoints r) = set ps"
    by simp
  have excl: "\<forall>s. latitude s = None \<or> longitude s = None \<longrightarrow>
      s \<notin> set (concat (map stores (clusters r))) \<and> s \<notin> set (individualPoints r)"
  proof (intro allI impI)
    fix s :: StorePoint assume "latitude s = None \<or> longitude s = None"
    then have "s \<notin> set ps" by (auto simp: ps_def)
    then show "s \<notin> set (concat (map stores (clusters r))) \<and> s \<notin> set (individualPoints r)"
      unfolding sub[symmetric] by blast
  qed
  have one: "clusters r = [] \<or> individualPoints r = []"
    unfolding r by (rule classify_points_exclusive)
  have both: "(clusters r = [] \<and> individualPoints r = []) = (ps = [])"
    unfolding r by (rule classify_points_both_empty)
  show ?thesis
    using part excl one both unfolding r_def ps_def by blast
qed

theorem classify_partitions_valid_witness:
  "mset (concat (map stores (clusters (classify [store_nyc_1, store_no_geometry, store_nyc_2] 3)))) +
     mset (individualPoints (classify [store_nyc_1, store_no_geometry, store_nyc_2] 3)) =
   mset [store_nyc_1, store_nyc_2] \<and>
   store_no_geometry \<notin>
     set (concat (map stores (clusters (classify [store_nyc_1, store_no_geometry, store_nyc_2] 3)))) \<and>
   individualPoints (classify [store_nyc_1, store_no_geometry, store_nyc_2] 3) = [] \<and>
   clusters (classify [store_nyc_1, store_no_geometry, store_nyc_2] 3) \<noteq> []"
proof -
  note w = classify_partitions_valid [of "[store_nyc_1, store_no_geometry, store_nyc_2]" 3]
  have a: "mset (concat (map stores (clusters (classify [store_nyc_1, store_no_geometry, store_nyc_2] 3)))) +
     mset (individualPoints (classify [store_nyc_1, store_no_geometry, store_nyc_2] 3)) =
     mset [store_nyc_1, store_nyc_2]"
    using w unfolding filter_valid_example by blast
  have b: "store_no_geometry \<notin>
     set (concat (map stores (clusters (classify [store_nyc_1, store_no_geometry, store_nyc_2] 3))))"
    using w example_valid(5) by blast
  have c: "clusters (classify [store_nyc_1, store_no_geometry, store_nyc_2] 3) \<noteq> []"
    by (simp add: example_classify)
  have d: "individualPoints (classify [store_nyc_1, store_no_geometry, store_nyc_2] 3) = []"
    using w c by blast
  show ?thesis using a b c d by blast
qed

text \<open>
  C2. For \<open>zoom \<ge> 11\<close> there is no cluster, and the individual points are the entities
  with a latitude and a longitude, all of them, in their order.
\<close>

theorem classify_individual_mode:
  "11 \<le> zoom \<Longrightarrow>
   clusters (classify store_list zoom) = [] \<and>
   individualPoints (classify store_list zoom) =
     filter (\<lambda>s. latitude s \<noteq> None \<and> longitude s \<noteq> None) store_list"
  by (simp add: classify_def classify_points_def points_of_def)

theorem classify_individual_mode_witness:
  "(11::rat) \<le> 11 \<and>
   clusters (classify [store_nyc_1, store_no_geometry, store_nyc_2] 11) = [] \<and>
   individualPoints (classify [store_nyc_1, store_no_geometry, store_nyc_2] 11) =
     [store_nyc_1, store_nyc_2]"
proof -
  have z: "(11::rat) \<le> 11" by simp
  from classify_individual_mode [OF z, of "[store_nyc_1, store_no_geometry, store_nyc_2]"] z
  show ?thesis unfolding filter_valid_example by blast
qed

lemma coord_mean_mset:
  assumes "mset ss = mset ss'"
  shows "coord_mean f ss = coord_mean f ss'"
proof -
  have "sum_list (map (\<lambda>s. as_number (f s)) ss) =
        sum_mset (image_mset (\<lambda>s. as_number (f s)) (mset ss))"
    by (simp flip: sum_mset_sum_list)
  moreover have "sum_list (map (\<lambda>s. as_number (f s)) ss') =
        sum_mset (image_mset (\<lambda>s. as_number (f s)) (mset ss'))"
    by (simp flip: sum_mset_sum_list)
  moreover have "length ss = length ss'"
    using assms by (rule mset_eq_length)
  ultimately show ?thesis using assms by (simp add: coord_mean_def)
qed

lemma clusters_clustered_mode:
  "zoom < 11 \<Longrightarrow>
   clusters (classify store_list zoom) =
     map_values (cluster_loop (gridSize_of zoom) [] (points_of store_list))"
  by (simp add: classify_def classify_points_def map_values_def)

lemma cluster_of_member:
  assumes "c \<in> set (map_values (cluster_loop g [] ps))"
  obtains k where "(k, c) \<in> set (cluster_loop g [] ps)"
    and "stores c = filter (\<lambda>s. cluster_key g s = k) ps" and "stores c \<noteq> []"
    and "lat c = coord_mean latitude (stores c)" and "lng c = coord_mean longitude (stores c)"
proof -
  from assms obtain k where kc: "(k, c) \<in> set (cluster_loop g [] ps)"
    by (auto simp: map_values_def)
  with cluster_inv_final[of g ps] show ?thesis
    by (intro that[of k]) (auto simp: cluster_inv_def)
qed

lemma cluster_for_key:
  assumes "s \<in> set ps"
  obtains c where "(cluster_key g s, c) \<in> set (cluster_loop g [] ps)"
    and "c \<in> set (map_values (cluster_loop g [] ps))"
    and "stores c = filter (\<lambda>s'. cluster_key g s' = cluster_key g s) ps"
    and "lat c = coord_mean latitude (stores c)" and "lng c = coord_mean longitude (stores c)"
proof -
  have inv: "cluster_inv g ps (cluster_loop g [] ps)" by (rule cluster_inv_final)
  then have "cluster_key g s \<in> fst ` set (cluster_loop g [] ps)"
    using assms by (simp add: cluster_inv_def)
  then obtain c where kc: "(cluster_key g s, c) \<in> set (cluster_loop g [] ps)" by auto
  then have "c \<in> set (map_values (cluster_loop g [] ps))"
    by (force simp: map_values_def)
  with kc inv show ?thesis
    by (intro that[of c]) (auto simp: cluster_inv_def)
qed

text \<open>
  C3. For \<open>zoom < 11\<close>, every cluster has at least one member, its members have both
  coordinates, and its centre, which the loop updates by the running average, is the
  arithmetic mean of its members' latitudes and longitudes. Hence the order is
  irrelevant: for a permutation of the input, every cluster has a counterpart with the
  same members (as a multiset) and the same centre. Arithmetic is exact here.
\<close>

theorem centroid_is_mean:
  assumes "zoom < 11"
  shows "(\<forall>c \<in> set (clusters (classify store_list zoom)).
            stores c \<noteq> [] \<and>
            (\<forall>s \<in> set (stores c). latitude s \<noteq> None \<and> longitude s \<noteq> None) \<and>
            lat c = coord_mean latitude (stores c) \<and>
            lng c = coord_mean longitude (stores c)) \<and>
         (mset store_list' = mset store_list \<longrightarrow>
            (\<forall>c \<in> set (clusters (classify store_list zoom)).
               \<exists>c' \<in> set (clusters (classify store_list' zoom)).
                 mset (stores c') = mset (stores c) \<and> lat c' = lat c \<and> lng c' = lng c))"
proof (intro conjI ballI impI)
  fix c assume "c \<in> set (clusters (classify store_list zoom))"
  then have c: "c \<in> set (map_values (cluster_loop (gridSize_of zoom) [] (points_of store_list)))"
    by (simp add: clusters_clustered_mode[OF assms])
  then obtain k where k: "stores c = filter (\<lambda>s. cluster_key (gridSize_of zoom) s = k) (points_of store_list)"
    "stores c \<noteq> []" "lat c = coord_mean latitude (stores c)"
    "lng c = coord_mean longitude (stores c)"
    by (rule cluster_of_member)
  show "stores c \<noteq> []" by (rule k(2))
  show "lat c = coord_mean latitude (stores c)" by (rule k(3))
  show "lng c = coord_mean longitude (stores c)" by (rule k(4))
  fix s assume "s \<in> set (stores c)"
  then have "s \<in> set (points_of store_list)" unfolding k(1) by simp
  then show "latitude s \<noteq> None" "longitude s \<noteq> None" by (simp_all add: points_of_def)
next
  fix c
  assume perm: "mset store_list' = mset store_list"
    and "c \<in> set (clusters (classify store_list zoom))"
  let ?g = "gridSize_of zoom"
  have c: "c \<in> set (map_values (cluster_loop ?g [] (points_of store_list)))"
    using \<open>c \<in> set (clusters (classify store_list zoom))\<close>
    by (simp add: clusters_clustered_mode[OF assms])
  then obtain k where k: "stores c = filter (\<lambda>s. cluster_key ?g s = k) (points_of store_list)"
    "stores c \<noteq> []" "lat c = coord_mean latitude (stores c)"
    "lng c = coord_mean longitude (stores c)"
    by (rule cluster_of_member)
  have pts: "mset (points_of store_list') = mset (points_of store_list)"
    using perm by (simp add: points_of_def)
  from k(1,2) obtain s where s: "s \<in> set (points_of store_list)" "cluster_key ?g s = k"
    by (metis (mono_tags, lifting) filter_False)
  have "s \<in> set (points_of store_list')"
    using s(1) pts by (metis set_mset_mset)
  then obtain c' where c': "c' \<in> set (map_values (cluster_loop ?g [] (points_of store_list')))"
    "stores c' = filter (\<lambda>s'. cluster_key ?g s' = cluster_key ?g s) (points_of store_list')"
    "lat c' = coord_mean latitude (stores c')" "lng c' = coord_mean longitude (stores c')"
    by (rule cluster_for_key)
  have same: "mset (stores c') = mset (stores c)"
    unfolding c'(2) k(1) s(2) by (simp add: pts)
  have "lat c' = lat c" "lng c' = lng c"
    unfolding c'(3,4) k(3,4) by (rule coord_mean_mset[OF same])+
  with same c'(1) show "\<exists>c' \<in> set (clusters (classify store_list' zoom)).
      mset (stores c') = mset (stores c) \<and> lat c' = lat c \<and> lng c' = lng c"
    by (auto simp: clusters_clustered_mode[OF assms])
qed

theorem centroid_is_mean_witness:
  "(3::rat) < 11 \<and> mset [store_nyc_2, store_nyc_1] = mset [store_nyc_1, store_nyc_2] \<and>
   clusters (classify [store_nyc_1, store_nyc_2] 3) =
     [\<lparr>lat = 8141 / 200, lng = - (14801 / 200), stores = [store_nyc_1, store_nyc_2]\<rparr>] \<and>
   coord_mean latitude [store_nyc_1, store_nyc_2] = 8141 / 200 \<and>
   coord_mean longitude [store_nyc_1, store_nyc_2] = - (14801 / 200) \<and>
   (\<exists>c' \<in> set (clusters (classify [store_nyc_2, store_nyc_1] 3)).
      mset (stores c') = mset [store_nyc_1, store_nyc_2] \<and>
      lat c' = 8141 / 200 \<and> lng c' = - (14801 / 200))"
proof -
  let ?c = "\<lparr>lat = 8141 / 200, lng = - (14801 / 200), stores = [store_nyc_1, store_nyc_2]\<rparr>"
  have z: "(3::rat) < 11" by simp
  have p: "mset [store_nyc_2, store_nyc_1] = mset [store_nyc_1, store_nyc_2]" by simp
  have cl: "clusters (classify [store_nyc_1, store_nyc_2] 3) = [?c]"
    by (simp add: example_classify)
  then have mem: "?c \<in> set (clusters (classify [store_nyc_1, store_nyc_2] 3))" by simp
  note w = centroid_is_mean [OF z, of "[store_nyc_1, store_nyc_2]" "[store_nyc_2, store_nyc_1]"]
  from w mem have "lat ?c = coord_mean latitude (stores ?c) \<and> lng ?c = coord_mean longitude (stores ?c)"
    by blast
  then have m: "coord_mean latitude [store_nyc_1, store_nyc_2] = 8141 / 200"
    "coord_mean longitude [store_nyc_1, store_nyc_2] = - (14801 / 200)"
    by simp_all
  from w p mem have "\<exists>c' \<in> set (clusters (classify [store_nyc_2, store_nyc_1] 3)).
      mset (stores c') = mset (stores ?c) \<and> lat c' = lat ?c \<and> lng c' = lng ?c"
    by blast
  then have e: "\<exists>c' \<in> set (clusters (classify [store_nyc_2, store_nyc_1] 3)).
      mset (stores c') = mset [store_nyc_1, store_nyc_2] \<and>
      lat c' = 8141 / 200 \<and> lng c' = - (14801 / 200)"
    by simp
  show ?thesis using z p cl m e by blast
qed


subsection \<open>The text of a key\<close>





lemma dec_digits_nonempty: "dec_digits n \<noteq> []"
  by (subst dec_digits.simps) simp

























section \<open>The statistics\<close>

lemma stats_loop_vals: "fst (stats_loop (vals, cm) ss) = vals @ stats_values ss"
proof (induction ss arbitrary: vals cm)
  case Nil
  then show ?case by (simp add: stats_values_def)
next
  case (Cons s ss)
  show ?case
  proof (cases "EffectiveValue s")
    case None
    then show ?thesis
      using Cons by (simp add: priceStats_base_EffectiveValue stats_values_def)
  next
    case (Some v)
    then show ?thesis
      using Cons by (simp add: priceStats_base_EffectiveValue stats_values_def Let_def)
  qed
qed

lemma counts_inv_step:
  assumes "counts_inv vals cm"
  shows "counts_inv (vals @ [p])
           (map_set cm p ((case map_get cm p of Some c \<Rightarrow> c | None \<Rightarrow> 0) + 1))"
proof -
  have d: "distinct (map fst cm)"
    and m: "\<And>q. map_of cm q = (if q \<in> set vals then Some (count_list vals q) else None)"
    using assms by (simp_all add: counts_inv_def)
  have c: "(case map_get cm p of Some c \<Rightarrow> c | None \<Rightarrow> 0) = count_list vals p"
    by (simp add: map_get_def m)
  show ?thesis
    unfolding counts_inv_def c
    by (auto simp: distinct_map_set[OF d] map_of_map_set m)
qed

lemma counts_inv_loop:
  "counts_inv vals cm \<Longrightarrow>
   counts_inv (fst (stats_loop (vals, cm) ss)) (snd (stats_loop (vals, cm) ss))"
proof (induction ss arbitrary: vals cm)
  case Nil
  then show ?case by simp
next
  case (Cons s ss)
  show ?case
  proof (cases "priceStats_base s")
    case None
    then show ?thesis using Cons by simp
  next
    case (Some v)
    from Cons.IH[OF counts_inv_step[OF Cons.prems, of "round2 v"]] Some
    show ?thesis by (simp add: Let_def)
  qed
qed

lemma stats_loop_result:
  obtains cm where "stats_loop ([], []) ss = (stats_values ss, cm)"
    and "counts_inv (stats_values ss) cm"
proof -
  obtain vals cm where r: "stats_loop ([], []) ss = (vals, cm)" by (cases "stats_loop ([], []) ss")
  have "vals = stats_values ss" using stats_loop_vals[of "[]" "[]" ss] r by simp
  moreover have "counts_inv vals cm"
    using counts_inv_loop[of "[]" "[]" ss] r by (simp add: counts_inv_def)
  ultimately show ?thesis using r that by blast
qed

lemma stats_values_empty_iff: "stats_values ss = [] \<longleftrightarrow> (\<forall>s \<in> set ss. EffectiveValue s = None)"
  by (induction ss) (auto simp: stats_values_def split: option.splits)

lemma length_stats_values:
  "length (stats_values ss) = length (filter (\<lambda>s. EffectiveValue s \<noteq> None) ss)"
  by (induction ss) (auto simp: stats_values_def split: option.splits)

lemma priceStats_None_iff:
  "(priceStats upc ss = None) = (upc = [] \<or> (\<forall>s \<in> set ss. EffectiveValue s = None))"
proof -
  obtain cm where r: "stats_loop ([], []) ss = (stats_values ss, cm)"
    by (rule stats_loop_result)
  show ?thesis
    by (simp add: priceStats_def r Let_def stats_values_empty_iff)
qed

lemma priceStats_count:
  assumes "priceStats upc ss = Some st"
  shows "stats_count st = length (stats_values ss)"
proof -
  obtain cm where r: "stats_loop ([], []) ss = (stats_values ss, cm)"
    by (rule stats_loop_result)
  show ?thesis
    using assms by (auto simp: priceStats_def r Let_def split: if_splits)
qed

lemma is_number_EffectiveValue:
  "(is_number (promo_price s) \<or> is_number (regular_price s)) = (EffectiveValue s \<noteq> None)"
  by (cases "promo_price s"; cases "regular_price s")
     (simp_all add: EffectiveValue_def present_and_numeric_def)

lemma storesForMap_values:
  "(\<forall>s \<in> set (storesForMap upc sw). EffectiveValue s = None) =
   (\<forall>s \<in> set sw. EffectiveValue s = None)"
  by (auto simp: storesForMap_def is_number_EffectiveValue)

text \<open>
  C8. The statistics are \<^verbatim>\<open>null\<close> exactly when no product is selected or no entity
  in scope has an effective value (a promo or a regular value); this also holds for the
  list \<^verbatim>\<open>storesForMap\<close> that \<^verbatim>\<open>App\<close> passes. In every other case they are a
  record whose count is the number of entities with an effective value, which is not zero.
\<close>

theorem priceStats_null_iff:
  "(priceStats upc ss = None) = (upc = [] \<or> (\<forall>s \<in> set ss. EffectiveValue s = None)) \<and>
   (priceStats upc (storesForMap upc sw) = None) =
     (upc = [] \<or> (\<forall>s \<in> set sw. EffectiveValue s = None)) \<and>
   (upc \<noteq> [] \<and> (\<exists>s \<in> set ss. EffectiveValue s \<noteq> None) \<longrightarrow>
      (\<exists>st. priceStats upc ss = Some st \<and> 0 < stats_count st \<and>
         stats_count st = length (filter (\<lambda>s. EffectiveValue s \<noteq> None) ss)))"
proof (intro conjI impI)
  show "(priceStats upc ss = None) = (upc = [] \<or> (\<forall>s \<in> set ss. EffectiveValue s = None))"
    by (rule priceStats_None_iff)
  show "(priceStats upc (storesForMap upc sw) = None) =
     (upc = [] \<or> (\<forall>s \<in> set sw. EffectiveValue s = None))"
    unfolding priceStats_None_iff storesForMap_values ..
next
  assume a: "upc \<noteq> [] \<and> (\<exists>s \<in> set ss. EffectiveValue s \<noteq> None)"
  then have "priceStats upc ss \<noteq> None" unfolding priceStats_None_iff by auto
  then obtain st where st: "priceStats upc ss = Some st" by blast
  have n: "stats_count st = length (filter (\<lambda>s. EffectiveValue s \<noteq> None) ss)"
    using priceStats_count[OF st] by (simp add: length_stats_values)
  moreover have "filter (\<lambda>s. EffectiveValue s \<noteq> None) ss \<noteq> []"
    using a by (simp add: filter_empty_conv)
  ultimately have "0 < stats_count st" by simp
  with st n show "\<exists>st. priceStats upc ss = Some st \<and> 0 < stats_count st \<and>
         stats_count st = length (filter (\<lambda>s. EffectiveValue s \<noteq> None) ss)"
    by blast
qed


theorem priceStats_null_iff_witness:
  "priceStats [] stats_example = None \<and>
   priceStats ''u'' [store_at ''n'' None None Null Undefined] = None \<and>
   (\<exists>st. priceStats ''u'' stats_example = Some st \<and> 0 < stats_count st \<and>
      stats_count st = length (filter (\<lambda>s. EffectiveValue s \<noteq> None) stats_example))"
proof -
  have a: "priceStats [] stats_example = None"
    using priceStats_null_iff [of "[]" stats_example] by blast
  have "\<forall>s \<in> set [store_at ''n'' None None Null Undefined]. EffectiveValue s = None"
    by (simp add: EffectiveValue_def present_and_numeric_def store_at_def)
  then have b: "priceStats ''u'' [store_at ''n'' None None Null Undefined] = None"
    using priceStats_null_iff [of "''u''" "[store_at ''n'' None None Null Undefined]"] by blast
  have "store_at ''p1'' None None Null (Number 1) \<in> set stats_example"
    by (simp add: stats_example_def)
  moreover have "EffectiveValue (store_at ''p1'' None None Null (Number 1)) \<noteq> None"
    by (simp add: EffectiveValue_def present_and_numeric_def store_at_def)
  ultimately have "\<exists>s \<in> set stats_example. EffectiveValue s \<noteq> None" by blast
  moreover have "''u'' \<noteq> []" by simp
  ultimately have c: "\<exists>st. priceStats ''u'' stats_example = Some st \<and> 0 < stats_count st \<and>
      stats_count st = length (filter (\<lambda>s. EffectiveValue s \<noteq> None) stats_example)"
    using priceStats_null_iff [of "''u''" stats_example] by blast
  show ?thesis using a b c by blast
qed

lemma round2_examples:
  "round2 1 = 1" "round2 2 = 2" "round2 3 = 3" "round2 (251 / 250) = 1" "round2 (5 / 2) = 5 / 2"
  by code_simp+






lemma foldl_add_sum_list: "foldl (\<lambda>acc v. acc + v) a xs = a + sum_list (xs :: rat list)"
  by (induction xs arbitrary: a) (simp_all add: add.assoc)

lemma sum_list_sort: "sum_list (sort xs) = sum_list (xs :: rat list)"
proof -
  have "sum_mset (mset (sort xs)) = sum_mset (mset xs)" by simp
  then show ?thesis by (simp only: sum_mset_sum_list)
qed

lemma sorted_first_Min:
  assumes "sorted xs" "xs \<noteq> []"
  shows "xs ! 0 = Min (set (xs :: rat list))"
proof (rule Min_eqI[symmetric])
  show "finite (set xs)" by simp
  show "xs ! 0 \<in> set xs" using assms(2) by simp
  fix y assume "y \<in> set xs"
  then obtain i where "i < length xs" "xs ! i = y" by (auto simp: in_set_conv_nth)
  then show "xs ! 0 \<le> y" using sorted_nth_mono[OF assms(1), of 0 i] by simp
qed

lemma sorted_last_Max:
  assumes "sorted xs" "xs \<noteq> []"
  shows "xs ! (length xs - 1) = Max (set (xs :: rat list))"
proof (rule Max_eqI[symmetric])
  show "finite (set xs)" by simp
  show "xs ! (length xs - 1) \<in> set xs" using assms(2) by simp
  fix y assume "y \<in> set xs"
  then obtain i where "i < length xs" "xs ! i = y" by (auto simp: in_set_conv_nth)
  then show "y \<le> xs ! (length xs - 1)"
    using sorted_nth_mono[OF assms(1), of i "length xs - 1"] by auto
qed

lemma priceStats_Some:
  assumes "priceStats upc ss = Some st"
  obtains cm where "counts_inv (stats_values ss) cm" and "stats_values ss \<noteq> []"
    and "stats_min st = sort (stats_values ss) ! 0"
    and "stats_max st = sort (stats_values ss) ! (length (stats_values ss) - 1)"
    and "stats_median st =
           (if length (stats_values ss) mod 2 = 1
            then sort (stats_values ss) ! (length (stats_values ss) div 2)
            else (sort (stats_values ss) ! (length (stats_values ss) div 2 - 1) +
                  sort (stats_values ss) ! (length (stats_values ss) div 2)) / 2)"
    and "stats_mean st = sum_list (stats_values ss) / of_nat (length (stats_values ss))"
    and "stats_count st = length (stats_values ss)"
    and "distribution st =
           sort_key bucket_price (map (\<lambda>(p, c). \<lparr>bucket_price = p, bucket_count = c\<rparr>) cm)"
proof -
  obtain cm where r: "stats_loop ([], []) ss = (stats_values ss, cm)"
    and inv: "counts_inv (stats_values ss) cm"
    by (rule stats_loop_result)
  have ne: "stats_values ss \<noteq> []" and upc: "upc \<noteq> []"
    using assms by (auto simp: priceStats_def r split: if_splits)
  have st: "st = \<lparr>stats_min = sort (stats_values ss) ! 0,
      stats_median =
           (if length (stats_values ss) mod 2 = 1
            then sort (stats_values ss) ! (length (stats_values ss) div 2)
            else (sort (stats_values ss) ! (length (stats_values ss) div 2 - 1) +
                  sort (stats_values ss) ! (length (stats_values ss) div 2)) / 2),
      stats_max = sort (stats_values ss) ! (length (stats_values ss) - 1),
      stats_mean = sum_list (stats_values ss) / of_nat (length (stats_values ss)),
      stats_count = length (stats_values ss),
      distribution =
           sort_key bucket_price (map (\<lambda>(p, c). \<lparr>bucket_price = p, bucket_count = c\<rparr>) cm)\<rparr>"
    using assms ne upc
    by (auto simp: priceStats_def r Let_def foldl_add_sum_list sum_list_sort)
  show ?thesis
    by (rule that[OF inv ne]) (simp_all add: st)
qed





section \<open>The markers of the gradient bar\<close>

lemma Math_min_fold: "Math_min m xs = fold min xs m"
  by (induction xs arbitrary: m) (simp_all add: min.commute)

lemma Math_max_fold: "Math_max m xs = fold max xs m"
  by (induction xs arbitrary: m) (simp_all add: max.commute)

lemma Math_min_Min: "Math_min p ps = Min (set (p # ps))"
  by (simp only: Math_min_fold Min.set_eq_fold)

lemma Math_max_Max: "Math_max p ps = Max (set (p # ps))"
  by (simp only: Math_max_fold Max.set_eq_fold)

lemma collect_prices_map_filter: "collect_prices ps = List.map_filter EffectiveValue ps"
  by (induction ps) (simp_all add: priceRange_val_EffectiveValue split: option.splits)

lemma priceRange_Min_Max:
  assumes "List.map_filter EffectiveValue ps \<noteq> []"
  shows "priceRange ps =
           \<lparr>range_min = Some (Min (set (List.map_filter EffectiveValue ps))),
            range_max = Some (Max (set (List.map_filter EffectiveValue ps)))\<rparr>"
proof -
  obtain p qs where e: "List.map_filter EffectiveValue ps = p # qs"
    using assms by (cases "List.map_filter EffectiveValue ps") auto
  show ?thesis
    unfolding priceRange_def collect_prices_map_filter e
    by (simp only: list.case Math_min_Min Math_max_Max)
qed

lemma set_map_filter: "v \<in> set (List.map_filter f xs) \<longleftrightarrow> (\<exists>x \<in> set xs. f x = Some v)"
  by (induction xs) (auto split: option.splits)

lemma stats_values_unrounded:
  assumes "\<forall>s \<in> set ss. \<forall>v. EffectiveValue s = Some v \<longrightarrow> round2 v = v"
  shows "stats_values ss = List.map_filter EffectiveValue ss"
  unfolding stats_values_def
proof (rule map_idI)
  fix v assume "v \<in> set (List.map_filter EffectiveValue ss)"
  then obtain s where "s \<in> set ss" "EffectiveValue s = Some v"
    unfolding set_map_filter by blast
  with assms show "round2 v = v" by blast
qed

lemma points_of_all_valid:
  assumes "\<forall>s \<in> set ss. latitude s \<noteq> None \<and> longitude s \<noteq> None"
  shows "points_of ss = ss"
  unfolding points_of_def using assms by (intro filter_True) blast

lemma priceStats_min_max:
  assumes "priceStats upc ss = Some st"
  shows "stats_values ss \<noteq> []" and "stats_min st = Min (set (stats_values ss))"
    and "stats_max st = Max (set (stats_values ss))"
proof -
  from assms obtain cm where ne: "stats_values ss \<noteq> []"
    and mn: "stats_min st = sort (stats_values ss) ! 0"
    and mx: "stats_max st = sort (stats_values ss) ! (length (stats_values ss) - 1)"
    by (rule priceStats_Some)
  have s: "sorted (sort (stats_values ss))" "sort (stats_values ss) \<noteq> []"
  proof -
    show "sorted (sort (stats_values ss))" by simp
    show "sort (stats_values ss) \<noteq> []"
    proof
      assume "sort (stats_values ss) = []"
      then have "length (sort (stats_values ss)) = 0" by (simp only: list.size)
      then show False using ne by simp
    qed
  qed
  show "stats_values ss \<noteq> []" by (rule ne)
  show "stats_min st = Min (set (stats_values ss))"
    using sorted_first_Min[OF s] by (simp add: mn)
  show "stats_max st = Max (set (stats_values ss))"
    using sorted_last_Max[OF s] by (simp add: mx)
qed

lemma marker_example_loop:
  "stats_loop ([], []) marker_example = ([1, 2, 3], [(1, 1), (2, 1), (3, 1)])"
  "stats_loop ([], []) marker_example_valid = ([1, 2, 3], [(1, 1), (2, 1), (3, 1)])"
  by (simp_all add: marker_example_def marker_example_valid_def store_at_def priceStats_base_def
      round2_examples map_get_def Let_def)

lemma marker_example_stats:
  "priceStats ''u'' marker_example =
     Some \<lparr>stats_min = 1, stats_median = 2, stats_max = 3, stats_mean = 2, stats_count = 3,
           distribution = [\<lparr>bucket_price = 1, bucket_count = 1\<rparr>,
                           \<lparr>bucket_price = 2, bucket_count = 1\<rparr>,
                           \<lparr>bucket_price = 3, bucket_count = 1\<rparr>]\<rparr>"
  "priceStats ''u'' marker_example_valid =
     Some \<lparr>stats_min = 1, stats_median = 2, stats_max = 3, stats_mean = 2, stats_count = 3,
           distribution = [\<lparr>bucket_price = 1, bucket_count = 1\<rparr>,
                           \<lparr>bucket_price = 2, bucket_count = 1\<rparr>,
                           \<lparr>bucket_price = 3, bucket_count = 1\<rparr>]\<rparr>"
  by (simp_all add: priceStats_def marker_example_loop)

lemma marker_example_scope:
  "storesForMap ''u'' marker_example = marker_example"
  "storesForMap ''u'' marker_example_valid = marker_example_valid"
  by (simp_all add: storesForMap_def marker_example_def marker_example_valid_def store_at_def)

lemma marker_example_points:
  "points_of marker_example =
     [store_at ''m1'' (Some 40) (Some (- 80)) Null (Number 1),
      store_at ''m2'' (Some 41) (Some (- 81)) Null (Number 2)]"
  by (simp add: points_of_def marker_example_def store_at_def)

lemma marker_example_range:
  "priceRange [store_at ''m1'' (Some 40) (Some (- 80)) Null (Number 1),
               store_at ''m2'' (Some 41) (Some (- 81)) Null (Number 2)] =
     \<lparr>range_min = Some 1, range_max = Some 2\<rparr>"
  by (simp add: priceRange_def priceRange_val_def store_at_def)

lemma marker_example_value:
  "EffectiveValue (store_at ''m2'' (Some 41) (Some (- 81)) Null (Number 2)) = Some 2"
  by (simp add: EffectiveValue_def present_and_numeric_def numeric_value_def store_at_def)

text \<open>
  C10 (amended). \<^verbatim>\<open>App\<close> hands the same list to the statistics and to the map. When
  every entity of that list has a latitude and a longitude and every effective value
  is its own rounding to two decimals, the range of the colours has the minimum and the
  maximum of the statistics, and for a bucket of the distribution and an entity whose
  effective value is the bucket's value, the marker's normalised position
  \<open>(value - min) / (max - min)\<close> clamped to \<open>[0, 1]\<close> is the clamped \<open>t\<close> at which the
  entity is coloured (and no marker is drawn exactly when the colour is the fallback).
\<close>

theorem marker_matches_color_parameter:
  assumes geo: "\<forall>s \<in> set scope. latitude s \<noteq> None \<and> longitude s \<noteq> None"
    and two: "\<forall>s \<in> set scope. \<forall>v. EffectiveValue s = Some v \<longrightarrow> round2 v = v"
    and st: "priceStats upc scope = Some st"
    and b: "b \<in> set (distribution st)"
    and s: "s \<in> set scope" "EffectiveValue s = Some (bucket_price b)"
  shows "range_min (priceRange (points_of scope)) = Some (stats_min st) \<and>
         range_max (priceRange (points_of scope)) = Some (stats_max st) \<and>
         marker_t st b = map_option clampT (getPriceColor_t (priceRange (points_of scope)) s) \<and>
         marker_position st b =
           map_option (\<lambda>t. clampT t * 100) (getPriceColor_t (priceRange (points_of scope)) s)"
proof -
  have v: "stats_values scope = List.map_filter EffectiveValue scope"
    by (rule stats_values_unrounded[OF two])
  have ne: "List.map_filter EffectiveValue scope \<noteq> []"
    and mn: "stats_min st = Min (set (List.map_filter EffectiveValue scope))"
    and mx: "stats_max st = Max (set (List.map_filter EffectiveValue scope))"
    using priceStats_min_max[OF st] unfolding v by blast+
  have pr: "priceRange (points_of scope) = \<lparr>range_min = Some (stats_min st), range_max = Some (stats_max st)\<rparr>"
    unfolding points_of_all_valid[OF geo] priceRange_Min_Max[OF ne] mn mx ..
  have t: "marker_t st b = map_option clampT (getPriceColor_t (priceRange (points_of scope)) s)"
    unfolding pr by (simp add: marker_t_def getPriceColor_t_def basePrice_EffectiveValue s(2)
        clampT_def Let_def)
  show ?thesis
    unfolding marker_position_def t by (simp add: pr option.map_comp comp_def)
qed


theorem marker_matches_color_parameter_witness:
  "marker_t
     \<lparr>stats_min = 1, stats_median = 2, stats_max = 3, stats_mean = 2, stats_count = 3,
      distribution = [\<lparr>bucket_price = 1, bucket_count = 1\<rparr>,
                      \<lparr>bucket_price = 2, bucket_count = 1\<rparr>,
                      \<lparr>bucket_price = 3, bucket_count = 1\<rparr>]\<rparr>
     \<lparr>bucket_price = 2, bucket_count = 1\<rparr> =
   map_option clampT
     (getPriceColor_t (priceRange (points_of (storesForMap ''u'' marker_example_valid)))
        (store_at ''m2'' (Some 41) (Some (- 81)) Null (Number 2))) \<and>
   marker_t
     \<lparr>stats_min = 1, stats_median = 2, stats_max = 3, stats_mean = 2, stats_count = 3,
      distribution = [\<lparr>bucket_price = 1, bucket_count = 1\<rparr>,
                      \<lparr>bucket_price = 2, bucket_count = 1\<rparr>,
                      \<lparr>bucket_price = 3, bucket_count = 1\<rparr>]\<rparr>
     \<lparr>bucket_price = 2, bucket_count = 1\<rparr> = Some (1 / 2) \<and>
   range_min (priceRange (points_of (storesForMap ''u'' marker_example_valid))) = Some 1 \<and>
   range_max (priceRange (points_of (storesForMap ''u'' marker_example_valid))) = Some 3"
proof -
  let ?st = "\<lparr>stats_min = 1, stats_median = 2, stats_max = 3, stats_mean = 2, stats_count = 3,
      distribution = [\<lparr>bucket_price = 1, bucket_count = 1\<rparr>,
                      \<lparr>bucket_price = 2, bucket_count = 1\<rparr>,
                      \<lparr>bucket_price = 3, bucket_count = 1\<rparr>]\<rparr>"
  let ?b = "\<lparr>bucket_price = 2, bucket_count = 1\<rparr>"
  let ?s = "store_at ''m2'' (Some 41) (Some (- 81)) Null (Number 2)"
  have geo: "\<forall>s \<in> set (storesForMap ''u'' marker_example_valid).
      latitude s \<noteq> None \<and> longitude s \<noteq> None"
    unfolding marker_example_scope by (simp add: marker_example_valid_def store_at_def)
  have two: "\<forall>s \<in> set (storesForMap ''u'' marker_example_valid).
      \<forall>v. EffectiveValue s = Some v \<longrightarrow> round2 v = v"
    unfolding marker_example_scope
    by (auto simp: marker_example_valid_def store_at_def EffectiveValue_def
        present_and_numeric_def numeric_value_def round2_examples)
  have st: "priceStats ''u'' (storesForMap ''u'' marker_example_valid) = Some ?st"
    unfolding marker_example_scope by (rule marker_example_stats)
  have b: "?b \<in> set (distribution ?st)" by simp
  have s: "?s \<in> set (storesForMap ''u'' marker_example_valid)"
    unfolding marker_example_scope by (simp add: marker_example_valid_def)
  have e: "EffectiveValue ?s = Some (bucket_price ?b)"
    by (simp add: marker_example_value)
  note w = marker_matches_color_parameter [OF geo two st b s e]
  have m: "marker_t ?st ?b = Some (1 / 2)" by (simp add: marker_t_def)
  have r: "range_min (priceRange (points_of (storesForMap ''u'' marker_example_valid))) = Some 1"
    "range_max (priceRange (points_of (storesForMap ''u'' marker_example_valid))) = Some 3"
    using w by simp_all
  from w have "marker_t ?st ?b =
      map_option clampT
        (getPriceColor_t (priceRange (points_of (storesForMap ''u'' marker_example_valid))) ?s)"
    by blast
  with m r show ?thesis by blast
qed

text \<open>
  Without these two conditions the positions differ. The statistics count every entity
  with a value, the colour range only those with both coordinates: with the values 1 and
  2 on the map and the value 3 at a store without latitude, the marker of the value 2
  stands at \<open>1 / 2\<close>, while its store is coloured at \<open>t = 1\<close>.
\<close>

theorem marker_position_differs:
  "priceStats ''u'' (storesForMap ''u'' marker_example) =
     Some \<lparr>stats_min = 1, stats_median = 2, stats_max = 3, stats_mean = 2, stats_count = 3,
           distribution = [\<lparr>bucket_price = 1, bucket_count = 1\<rparr>,
                           \<lparr>bucket_price = 2, bucket_count = 1\<rparr>,
                           \<lparr>bucket_price = 3, bucket_count = 1\<rparr>]\<rparr> \<and>
   store_at ''m2'' (Some 41) (Some (- 81)) Null (Number 2)
     \<in> set (points_of (storesForMap ''u'' marker_example)) \<and>
   EffectiveValue (store_at ''m2'' (Some 41) (Some (- 81)) Null (Number 2)) = Some 2 \<and>
   marker_t
     \<lparr>stats_min = 1, stats_median = 2, stats_max = 3, stats_mean = 2, stats_count = 3,
      distribution = [\<lparr>bucket_price = 1, bucket_count = 1\<rparr>,
                      \<lparr>bucket_price = 2, bucket_count = 1\<rparr>,
                      \<lparr>bucket_price = 3, bucket_count = 1\<rparr>]\<rparr>
     \<lparr>bucket_price = 2, bucket_count = 1\<rparr> = Some (1 / 2) \<and>
   map_option clampT
     (getPriceColor_t (priceRange (points_of (storesForMap ''u'' marker_example)))
        (store_at ''m2'' (Some 41) (Some (- 81)) Null (Number 2))) = Some 1 \<and>
   marker_t
     \<lparr>stats_min = 1, stats_median = 2, stats_max = 3, stats_mean = 2, stats_count = 3,
      distribution = [\<lparr>bucket_price = 1, bucket_count = 1\<rparr>,
                      \<lparr>bucket_price = 2, bucket_count = 1\<rparr>,
                      \<lparr>bucket_price = 3, bucket_count = 1\<rparr>]\<rparr>
     \<lparr>bucket_price = 2, bucket_count = 1\<rparr> \<noteq>
   map_option clampT
     (getPriceColor_t (priceRange (points_of (storesForMap ''u'' marker_example)))
        (store_at ''m2'' (Some 41) (Some (- 81)) Null (Number 2)))"
proof -
  have t: "getPriceColor_t \<lparr>range_min = Some 1, range_max = Some 2\<rparr>
             (store_at ''m2'' (Some 41) (Some (- 81)) Null (Number 2)) = Some 1"
    by (simp add: getPriceColor_t_def basePrice_EffectiveValue marker_example_value)
  have c: "clampT 1 = 1" by (simp add: clampT_def)
  show ?thesis
    unfolding marker_example_scope marker_example_points marker_example_range t
    by (simp add: marker_example_stats marker_example_value marker_t_def c)
qed

end
